theory Spec2Isabelle
  imports Main
begin

section \<open>Data model\<close>

text \<open>
  The chat server of \<^verbatim>\<open>server.py\<close> keeps a dictionary of connected users, talks to an
  SQLite database with two tables and writes text lines to stream writers. The model
  makes all of that an explicit state, \<open>world\<close>, that every operation takes and returns.

  \<^item> A \<^verbatim>\<open>StreamWriter\<close> is known by its identity only (\<^verbatim>\<open>w != self_writer\<close>), so it is
    a number. What was written to it is kept in one trace of \<open>(writer, bytes)\<close> pairs, in
    the order of the \<^verbatim>\<open>w.write\<close> calls. A write never raises. The connections that are
    lost (the peer is gone and the transport has noticed) are the list \<open>lost\<close>, which
    only the environment changes: \<^verbatim>\<open>await w.drain()\<close> on such a writer raises
    \<^verbatim>\<open>ConnectionResetError\<close>, as asyncio's \<^verbatim>\<open>_drain_helper\<close> does, and returns
    otherwise. Back-pressure (a drain that waits) is not modelled.
  \<^item> \<^verbatim>\<open>self.users\<close> is a Python dict, which iterates in insertion order: an association
    list, updated in place when the key exists.
  \<^item> A timestamp is an integer (microseconds). Every call of \<^verbatim>\<open>datetime.now\<close> reads
    the environment's clock at the current tick and advances the tick, so two calls
    may give different times.
  \<^item> Every storage operation opens its own connection inside \<^verbatim>\<open>try\<close>. Whether that
    attempt fails is decided by the head of \<open>faults\<close>: \<open>Some er\<close> makes the operation
    raise \<open>er\<close> inside its \<^verbatim>\<open>try\<close> block, \<open>None\<close> (or an exhausted list) lets it run.
\<close>

type_synonym writer = nat
type_synonym datetime = int
type_synonym bytes = string
type_synonym json_dict = "string \<rightharpoonup> string"

text \<open>\<^verbatim>\<open>structs.py\<close>: the request as the client builds it; \<^verbatim>\<open>to_json\<close> is \<^verbatim>\<open>asdict\<close>.\<close>

record RequestData =
  username :: string
  target :: string
  receiver :: string
  message :: string

definition to_json :: "RequestData \<Rightarrow> json_dict" where
  "to_json r = [''username'' \<mapsto> username r, ''target'' \<mapsto> target r,
                ''receiver'' \<mapsto> receiver r, ''message'' \<mapsto> message r]"

text \<open>
  What \<^verbatim>\<open>json.loads\<close> may return: a dict (its values are taken to be strings, as
  \<^verbatim>\<open>RequestData\<close> produces them) or some other JSON value, which cannot be subscripted
  with a string.
\<close>

datatype json = Dict json_dict | NotADict

datatype error = JSONDecodeError | TypeError | KeyError string | ConnectionResetError

datatype log_entry = LogInfo string | LogError string

type_synonym registration = "string \<times> datetime \<times> int"
type_synonym message_row = "string \<times> string \<times> string \<times> datetime"
type_synonym backlog_row = "string \<times> string \<times> datetime"

record world =
  users :: "(string \<times> writer) list"
  registrations :: "registration list"
  messages :: "message_row list"
  sent :: "(writer \<times> bytes) list"
  closed_writers :: "writer list"
  lost :: "writer list"
  logs :: "log_entry list"
  tick :: nat
  faults :: "string option list"

text \<open>
  The module \<^verbatim>\<open>config\<close> is not part of the sources: its constants are parameters, with
  the clock, the text form of a timestamp, the JSON parser and the peer address.
\<close>

record env =
  LIMIT_MESSAGES :: int
  LIMIT_SHOW_MESSAGES :: int
  LIFETIME_MESSAGES :: int
  clock :: "nat \<Rightarrow> datetime"
  str_dt :: "datetime \<Rightarrow> string"
  json_parse :: "bytes \<Rightarrow> json option"
  peername :: "writer \<Rightarrow> string"

type_synonym 'a result = "(error \<times> world) + 'a"

section \<open>Primitive effects\<close>

definition now :: "env \<Rightarrow> world \<Rightarrow> datetime \<times> world" where
  "now e s = (clock e (tick s), s\<lparr>tick := Suc (tick s)\<rparr>)"

definition connect :: "world \<Rightarrow> string option \<times> world" where
  "connect s = (case faults s of [] \<Rightarrow> (None, s) | f # fs \<Rightarrow> (f, s\<lparr>faults := fs\<rparr>))"

definition stream_write :: "writer \<Rightarrow> bytes \<Rightarrow> world \<Rightarrow> world" where
  "stream_write w line s = s\<lparr>sent := sent s @ [(w, line)]\<rparr>"

text \<open>\<^verbatim>\<open>await w.drain()\<close>, and the pair \<^verbatim>\<open>w.write(line); await w.drain()\<close>.\<close>

definition drain :: "writer \<Rightarrow> world \<Rightarrow> world result" where
  "drain w s = (if w \<in> set (lost s) then Inl (ConnectionResetError, s) else Inr s)"

definition write_drain :: "writer \<Rightarrow> bytes \<Rightarrow> world \<Rightarrow> world result" where
  "write_drain w line s = drain w (stream_write w line s)"

definition logger_error :: "string \<Rightarrow> world \<Rightarrow> world" where
  "logger_error txt s = s\<lparr>logs := logs s @ [LogError txt]\<rparr>"

definition logger_info :: "string \<Rightarrow> world \<Rightarrow> world" where
  "logger_info txt s = s\<lparr>logs := logs s @ [LogInfo txt]\<rparr>"

definition newline :: string where
  "newline = [CHR 0x0A]"

text \<open>\<^verbatim>\<open>self.users[user] = writer\<close>: an existing key keeps its place in the dict.\<close>

fun dict_set :: "'k \<Rightarrow> 'v \<Rightarrow> ('k \<times> 'v) list \<Rightarrow> ('k \<times> 'v) list" where
  "dict_set k v [] = [(k, v)]"
| "dict_set k v ((k', v') # kvs) =
     (if k' = k then (k, v) # kvs else (k', v') # dict_set k v kvs)"

text \<open>
  \<^verbatim>\<open>json.loads(data.decode())\<close>. The empty document is never valid JSON, so an empty read
  always raises; everything else is the parser's answer. \<open>None\<close> stands for the
  \<^verbatim>\<open>ValueError\<close> raised by decoding (\<^verbatim>\<open>JSONDecodeError\<close>, or \<^verbatim>\<open>UnicodeDecodeError\<close>).
\<close>

definition json_loads :: "env \<Rightarrow> bytes \<Rightarrow> json option" where
  "json_loads e data = (if data = [] then None else json_parse e data)"

section \<open>Storage operations\<close>

text \<open>
  \<^verbatim>\<open>__create_record_in_db\<close>: \<^verbatim>\<open>receiver or 'all'\<close> replaces the empty string; the row gets
  the time of the insert.
\<close>

definition create_record_in_db :: "env \<Rightarrow> string \<Rightarrow> string \<Rightarrow> string \<Rightarrow> world \<Rightarrow> world" where
  "create_record_in_db e msg sender rcv s =
     (let rcv' = (if rcv = [] then ''all'' else rcv) in
      case connect s of
        (Some er, s1) \<Rightarrow> logger_error (''DB error - record message: '' @ er) s1
      | (None, s1) \<Rightarrow>
          (case now e s1 of (t, s2) \<Rightarrow>
             s2\<lparr>messages := messages s2 @ [(msg, sender, rcv', t)]\<rparr>))"

text \<open>
  The query of \<^verbatim>\<open>__get_available_messages\<close>, on the rows of \<^verbatim>\<open>main.messages\<close> in
  insertion order. Both subqueries select \<open>(message, sender, send_date)\<close> of the rows
  whose receiver is \<^verbatim>\<open>'all'\<close> or the parameter; the first keeps \<open>send_date >= reg_date\<close>,
  the second keeps \<open>send_date <= reg_date\<close>, orders by \<open>send_date\<close> ascending and takes the
  first \<open>LIMIT_SHOW_MESSAGES\<close> rows. \<^verbatim>\<open>UNION\<close> removes duplicate rows and the outer
  \<^verbatim>\<open>ORDER BY\<close> sorts by \<open>send_date\<close>. SQL leaves the order of rows with equal
  \<open>send_date\<close> open; the model sorts stably. A negative \<^verbatim>\<open>LIMIT\<close> is no limit in SQLite.
\<close>

definition qualifying :: "string \<Rightarrow> message_row \<Rightarrow> bool" where
  "qualifying rcv row = (case row of (m, sd, r, t) \<Rightarrow> r = ''all'' \<or> r = rcv)"

definition select_columns :: "message_row \<Rightarrow> backlog_row" where
  "select_columns row = (case row of (m, sd, r, t) \<Rightarrow> (m, sd, t))"

definition send_date :: "backlog_row \<Rightarrow> datetime" where
  "send_date row = snd (snd row)"

definition sql_limit :: "int \<Rightarrow> 'a list \<Rightarrow> 'a list" where
  "sql_limit k xs = (if k < 0 then xs else take (nat k) xs)"

definition rows_since :: "string \<Rightarrow> datetime \<Rightarrow> message_row list \<Rightarrow> backlog_row list" where
  "rows_since rcv reg_date tbl =
     sort_key send_date
       (map select_columns
          (filter (\<lambda>row. qualifying rcv row \<and> reg_date \<le> snd (snd (snd row))) tbl))"

definition rows_until :: "env \<Rightarrow> string \<Rightarrow> datetime \<Rightarrow> message_row list \<Rightarrow> backlog_row list" where
  "rows_until e rcv reg_date tbl =
     sql_limit (LIMIT_SHOW_MESSAGES e)
       (sort_key send_date
          (map select_columns
             (filter (\<lambda>row. qualifying rcv row \<and> snd (snd (snd row)) \<le> reg_date) tbl)))"

definition get_message_query ::
  "env \<Rightarrow> string \<Rightarrow> datetime \<Rightarrow> message_row list \<Rightarrow> backlog_row list" where
  "get_message_query e rcv reg_date tbl =
     sort_key send_date (remdups (rows_since rcv reg_date tbl @ rows_until e rcv reg_date tbl))"

definition get_available_messages_db ::
  "env \<Rightarrow> string \<Rightarrow> datetime \<Rightarrow> world \<Rightarrow> backlog_row list \<times> world" where
  "get_available_messages_db e rcv reg_date s =
     (case connect s of
        (Some er, s1) \<Rightarrow> ([], logger_error (''DB error - get messages: '' @ er) s1)
      | (None, s1) \<Rightarrow> (get_message_query e rcv reg_date (messages s1), s1))"

text \<open>
  \<^verbatim>\<open>__create_user_db_record\<close> inserts \<open>(username, reg_date)\<close> only.

  Modelled from the spec: the table declaration of \<^verbatim>\<open>main.registrations\<close> is not in
  the sources. The spec gives \<open>registrations(username UNIQUE, reg_date, count_messages)\<close>
  and says that a user is created with a zero count: an insert of a username that is
  already there fails (and is logged, as every storage error), and a new row gets
  \<open>count_messages = 0\<close>.
\<close>

definition create_user_db_record :: "env \<Rightarrow> string \<Rightarrow> world \<Rightarrow> world" where
  "create_user_db_record e user s =
     (case connect s of
        (Some er, s1) \<Rightarrow> logger_error (''DB error - registration: '' @ er) s1
      | (None, s1) \<Rightarrow>
          (case now e s1 of (t, s2) \<Rightarrow>
             if user \<in> set (map fst (registrations s2))
             then logger_error
                    (''DB error - registration: UNIQUE constraint failed: registrations.username'') s2
             else s2\<lparr>registrations := registrations s2 @ [(user, t, 0)]\<rparr>))"

text \<open>\<^verbatim>\<open>__get_user\<close>: \<^verbatim>\<open>fetchone\<close> gives the first matching row, or \<^verbatim>\<open>None\<close>.\<close>

definition get_user_db :: "string \<Rightarrow> world \<Rightarrow> registration option \<times> world" where
  "get_user_db uname s =
     (case connect s of
        (Some er, s1) \<Rightarrow> (None, logger_error (''DB error - get user: '' @ er) s1)
      | (None, s1) \<Rightarrow> (find (\<lambda>row. fst row = uname) (registrations s1), s1))"


definition append_count_message_db :: "string \<Rightarrow> int \<Rightarrow> world \<Rightarrow> world" where
  "append_count_message_db uname count_messages s =
     (case connect s of
        (Some er, s1) \<Rightarrow> logger_error (''DB error - updating count messages: '' @ er) s1
      | (None, s1) \<Rightarrow>
          s1\<lparr>registrations :=
               map (\<lambda>(u, rd, c). if u = uname then (u, rd, count_messages) else (u, rd, c))
                 (registrations s1)\<rparr>)"


section \<open>Asynchronous wrappers and senders\<close>

text \<open>
  The coroutines that hand a storage operation to the single-worker executor and await
  its result are the operation itself in a sequential model. \<^verbatim>\<open>store_message\<close> reads
  three keys of the decoded dict, in this order, before the operation starts.
\<close>

definition store_message :: "env \<Rightarrow> json_dict \<Rightarrow> world \<Rightarrow> world result" where
  "store_message e d s =
     (case d ''message'' of
        None \<Rightarrow> Inl (KeyError ''message'', s)
      | Some msg \<Rightarrow>
     (case d ''username'' of
        None \<Rightarrow> Inl (KeyError ''username'', s)
      | Some sender \<Rightarrow>
     (case d ''receiver'' of
        None \<Rightarrow> Inl (KeyError ''receiver'', s)
      | Some rcv \<Rightarrow> Inr (create_record_in_db e msg sender rcv s))))"

definition reg_user :: "env \<Rightarrow> string \<Rightarrow> world \<Rightarrow> world" where
  "reg_user e user s = create_user_db_record e user s"

definition get_user :: "string \<Rightarrow> world \<Rightarrow> registration option \<times> world" where
  "get_user uname s = get_user_db uname s"

definition append_count_message :: "string \<Rightarrow> int \<Rightarrow> world \<Rightarrow> world" where
  "append_count_message uname count_messages s =
     append_count_message_db uname (count_messages + 1) s"

text \<open>The line of a chat message: \<^verbatim>\<open>f'{datetime} {sender}: {message}\n'\<close>.\<close>

definition format_line :: "env \<Rightarrow> datetime \<Rightarrow> string \<Rightarrow> string \<Rightarrow> bytes" where
  "format_line e t sender msg = str_dt e t @ '' '' @ sender @ '': '' @ msg @ newline"

definition hello_line :: "string \<Rightarrow> bytes" where
  "hello_line sender = ''New guest in the chat! - '' @ sender @ newline"

definition limit_warning_line :: bytes where
  "limit_warning_line =
     ''You have reached the limit for sending messages to the general chat'' @ newline"

text \<open>
  \<^verbatim>\<open>send_to_all\<close>: the loop over \<^verbatim>\<open>self.users.values()\<close>; every write reads the clock
  and is followed by \<^verbatim>\<open>await w.drain()\<close>, which ends the loop by its exception.
\<close>

fun send_to_all_loop ::
  "env \<Rightarrow> writer \<Rightarrow> string \<Rightarrow> string \<Rightarrow> writer list \<Rightarrow> world \<Rightarrow> world result" where
  "send_to_all_loop e self_writer sender msg [] s = Inr s"
| "send_to_all_loop e self_writer sender msg (w # ws) s =
     (if w \<noteq> self_writer
      then (case now e s of (t, s1) \<Rightarrow>
              (case write_drain w (format_line e t sender msg) s1 of
                 Inl x \<Rightarrow> Inl x
               | Inr s2 \<Rightarrow> send_to_all_loop e self_writer sender msg ws s2))
      else send_to_all_loop e self_writer sender msg ws s)"

definition send_to_all :: "env \<Rightarrow> writer \<Rightarrow> string \<Rightarrow> string \<Rightarrow> world \<Rightarrow> world result" where
  "send_to_all e self_writer sender msg s =
     send_to_all_loop e self_writer sender msg (map snd (users s)) s"

text \<open>\<^verbatim>\<open>send_to_one\<close>: the loop over \<^verbatim>\<open>self.users.items()\<close>.\<close>

fun send_to_one_loop ::
  "env \<Rightarrow> string \<Rightarrow> string \<Rightarrow> string \<Rightarrow> (string \<times> writer) list \<Rightarrow> world \<Rightarrow> world result" where
  "send_to_one_loop e sender msg rcv [] s = Inr s"
| "send_to_one_loop e sender msg rcv ((uname, w) # items) s =
     (if uname = rcv
      then (case now e s of (t, s1) \<Rightarrow>
              (case write_drain w (format_line e t sender msg) s1 of
                 Inl x \<Rightarrow> Inl x
               | Inr s2 \<Rightarrow> send_to_one_loop e sender msg rcv items s2))
      else send_to_one_loop e sender msg rcv items s)"

definition send_to_one :: "env \<Rightarrow> string \<Rightarrow> string \<Rightarrow> string \<Rightarrow> world \<Rightarrow> world result" where
  "send_to_one e sender msg rcv s = send_to_one_loop e sender msg rcv (users s) s"

fun send_hello_loop :: "writer \<Rightarrow> string \<Rightarrow> writer list \<Rightarrow> world \<Rightarrow> world result" where
  "send_hello_loop self_writer sender [] s = Inr s"
| "send_hello_loop self_writer sender (w # ws) s =
     (if w \<noteq> self_writer
      then (case write_drain w (hello_line sender) s of
              Inl x \<Rightarrow> Inl x
            | Inr s1 \<Rightarrow> send_hello_loop self_writer sender ws s1)
      else send_hello_loop self_writer sender ws s)"

definition send_hello :: "writer \<Rightarrow> string \<Rightarrow> world \<Rightarrow> world result" where
  "send_hello self_writer sender s =
     send_hello_loop self_writer sender (map snd (users s)) s"

definition send_limit_warning :: "writer \<Rightarrow> world \<Rightarrow> world result" where
  "send_limit_warning w s = write_drain w limit_warning_line s"

text \<open>
  \<^verbatim>\<open>send_available_messages\<close>: a row \<open>m\<close> is \<open>(message, sender, send_date)\<close> and is
  written as \<^verbatim>\<open>f'{m[2]} {m[1]}: {m[0]}\n'\<close>, each write followed by a drain.
\<close>

definition backlog_line :: "env \<Rightarrow> backlog_row \<Rightarrow> bytes" where
  "backlog_line e m = (case m of (msg, sender, t) \<Rightarrow> format_line e t sender msg)"

fun write_all :: "writer \<Rightarrow> bytes list \<Rightarrow> world \<Rightarrow> world result" where
  "write_all w [] s = Inr s"
| "write_all w (l # ls) s =
     (case write_drain w l s of Inl x \<Rightarrow> Inl x | Inr s1 \<Rightarrow> write_all w ls s1)"

definition send_available_messages ::
  "env \<Rightarrow> string \<Rightarrow> writer \<Rightarrow> datetime \<Rightarrow> world \<Rightarrow> world result" where
  "send_available_messages e user w reg_date s =
     (case get_available_messages_db e user reg_date s of
        (ms, s1) \<Rightarrow> write_all w (map (backlog_line e) ms) s1)"

section \<open>The request dispatcher\<close>

text \<open>
  \<^verbatim>\<open>process_data\<close>, statement by statement. An exception leaves the coroutine with the
  state reached so far: \<open>Inl (error, state)\<close>.

  Lines 95 to 101 of \<^verbatim>\<open>process_data\<close> (look the user up, register the user when the
  lookup gives nothing) are \<open>resolve_user\<close>, which returns \<^verbatim>\<open>reg_date\<close>,
  \<^verbatim>\<open>count_messages\<close> and the state.
\<close>

definition resolve_user :: "env \<Rightarrow> string \<Rightarrow> world \<Rightarrow> datetime \<times> int \<times> world" where
  "resolve_user e user s1 =
     (case get_user user s1 of (exist_user, s2) \<Rightarrow>
        (case exist_user of
           None \<Rightarrow> (case now e (reg_user e user s2) of (t, s3) \<Rightarrow> (t, 0, s3))
         | Some (u, rd, c) \<Rightarrow> (rd, c, s2)))"

definition process_data :: "env \<Rightarrow> bytes \<Rightarrow> writer \<Rightarrow> world \<Rightarrow> world result" where
  "process_data e data writer s =
     (case json_loads e data of
        None \<Rightarrow> Inl (JSONDecodeError, s)
      | Some NotADict \<Rightarrow> Inl (TypeError, s)
      | Some (Dict d) \<Rightarrow>
     (case d ''target'' of
        None \<Rightarrow> Inl (KeyError ''target'', s)
      | Some tgt \<Rightarrow>
     (case d ''username'' of
        None \<Rightarrow> Inl (KeyError ''username'', s)
      | Some user \<Rightarrow>
     (case (if tgt \<noteq> ''hello'' then store_message e d s else Inr s) of
        Inl x \<Rightarrow> Inl x
      | Inr s1 \<Rightarrow>
     (case resolve_user e user s1 of
        (reg_date, count_messages, s3) \<Rightarrow>
          if tgt = ''hello'' then
            (case send_available_messages e user writer reg_date s3 of
               Inl x \<Rightarrow> Inl x
             | Inr s4 \<Rightarrow>
                 send_hello writer user (s4\<lparr>users := dict_set user writer (users s4)\<rparr>))
          else if tgt = ''all'' then
            (if LIMIT_MESSAGES e \<le> count_messages
             then send_limit_warning writer s3
             else (case d ''message'' of
                     None \<Rightarrow> Inl (KeyError ''message'', s3)
                   | Some msg \<Rightarrow>
                       (case send_to_all e writer user msg s3 of
                          Inl x \<Rightarrow> Inl x
                        | Inr s4 \<Rightarrow> Inr (append_count_message user count_messages s4))))
          else if tgt = ''one_to_one'' then
            (case d ''message'' of
               None \<Rightarrow> Inl (KeyError ''message'', s3)
             | Some msg \<Rightarrow>
            (case d ''receiver'' of
               None \<Rightarrow> Inl (KeyError ''receiver'', s3)
             | Some rcv \<Rightarrow> send_to_one e user msg rcv s3))
          else Inr s3)))))"

section \<open>The connection handler\<close>

text \<open>
  \<^verbatim>\<open>client_connected\<close>. The peer's behaviour is the list of chunks that the successive
  \<^verbatim>\<open>reader.read(1024)\<close> calls return before the peer closes; after them a read returns
  the empty bytes. The loop body processes the chunk first and tests it for emptiness
  afterwards; only a normal exit of the loop reaches \<^verbatim>\<open>writer.close()\<close>.
\<close>

fun serve :: "env \<Rightarrow> bytes list \<Rightarrow> writer \<Rightarrow> world \<Rightarrow> world result" where
  "serve e [] writer s = process_data e [] writer s"
| "serve e (data # later) writer s =
     (case process_data e data writer s of
        Inl x \<Rightarrow> Inl x
      | Inr s1 \<Rightarrow> if data = [] then Inr s1 else serve e later writer s1)"

definition client_connected :: "env \<Rightarrow> bytes list \<Rightarrow> writer \<Rightarrow> world \<Rightarrow> world result" where
  "client_connected e reads writer s =
     (case serve e reads writer (logger_info (''Start serving '' @ peername e writer) s) of
        Inl x \<Rightarrow> Inl x
      | Inr s1 \<Rightarrow>
          (let s2 = logger_info (''Stop serving '' @ peername e writer) s1
           in Inr (s2\<lparr>closed_writers := closed_writers s2 @ [writer]\<rparr>)))"


text \<open>
  The outcome that \<open>faults\<close> holds for the \<open>n\<close>-th storage operation from now on
  (\<open>0\<close> is the next one): every storage operation connects once, and so takes one
  entry, whether it fails or not.
\<close>

definition nth_fault :: "nat \<Rightarrow> world \<Rightarrow> string option" where
  "nth_fault n s = (if n < length (faults s) then faults s ! n else None)"

section \<open>Outcomes and frames\<close>

text \<open>
  Notions used to state lemmas about the model, not functions of the program: the
  state a call ends in, whether by return or by exception; the exception, if any; and
  what a sender or a storage operation leaves alone.
\<close>

definition final_state :: "world result \<Rightarrow> world" where
  "final_state r = (case r of Inl (er, s') \<Rightarrow> s' | Inr s' \<Rightarrow> s')"

definition raised :: "world result \<Rightarrow> error option" where
  "raised r = (case r of Inl (er, s') \<Rightarrow> Some er | Inr s' \<Rightarrow> None)"

definition io_only :: "world \<Rightarrow> world \<Rightarrow> bool" where
  "io_only s s' =
     (users s' = users s \<and> registrations s' = registrations s \<and> messages s' = messages s \<and>
      closed_writers s' = closed_writers s \<and> lost s' = lost s \<and> logs s' = logs s \<and>
      faults s' = faults s \<and> tick s \<le> tick s')"

definition lost_or_fine :: "world result \<Rightarrow> bool" where
  "lost_or_fine r = (raised r = None \<or> raised r = Some ConnectionResetError)"

definition storage_only :: "world \<Rightarrow> world \<Rightarrow> bool" where
  "storage_only s s' =
     (users s' = users s \<and> sent s' = sent s \<and> closed_writers s' = closed_writers s \<and>
      lost s' = lost s \<and> faults s' = tl (faults s) \<and> tick s \<le> tick s')"

section \<open>A small running system\<close>

text \<open>
  A concrete environment and state on which the theorems below are instantiated. Two
  users are connected, alice on writer 1 and bob on writer 2; alice has used up her two
  messages to the general chat. The parser knows the JSON texts that
  \<^verbatim>\<open>RequestData.to_string_json\<close> produces for a few requests.
\<close>

definition hello_carol :: RequestData where
  "hello_carol = \<lparr>username = ''carol'', target = ''hello'', receiver = [], message = []\<rparr>"

definition hello_bob :: RequestData where
  "hello_bob = \<lparr>username = ''bob'', target = ''hello'', receiver = [], message = []\<rparr>"

definition all_bob :: RequestData where
  "all_bob = \<lparr>username = ''bob'', target = ''all'', receiver = [], message = ''hi''\<rparr>"

definition all_alice :: RequestData where
  "all_alice = \<lparr>username = ''alice'', target = ''all'', receiver = [], message = ''more''\<rparr>"

definition bob_to_alice :: RequestData where
  "bob_to_alice =
     \<lparr>username = ''bob'', target = ''one_to_one'', receiver = ''alice'', message = ''psst''\<rparr>"

definition bob_to_bob :: RequestData where
  "bob_to_bob =
     \<lparr>username = ''bob'', target = ''one_to_one'', receiver = ''bob'', message = ''memo''\<rparr>"

definition wire_hello_carol :: bytes where
  \<open>wire_hello_carol =
     ''{"username": "carol", "target": "hello", "receiver": "", "message": ""}''\<close>

definition wire_hello_bob :: bytes where
  \<open>wire_hello_bob =
     ''{"username": "bob", "target": "hello", "receiver": "", "message": ""}''\<close>

definition wire_all_bob :: bytes where
  \<open>wire_all_bob =
     ''{"username": "bob", "target": "all", "receiver": "", "message": "hi"}''\<close>

definition wire_all_alice :: bytes where
  \<open>wire_all_alice =
     ''{"username": "alice", "target": "all", "receiver": "", "message": "more"}''\<close>

definition wire_bob_to_alice :: bytes where
  \<open>wire_bob_to_alice =
     ''{"username": "bob", "target": "one_to_one", "receiver": "alice", "message": "psst"}''\<close>

definition wire_bob_to_bob :: bytes where
  \<open>wire_bob_to_bob =
     ''{"username": "bob", "target": "one_to_one", "receiver": "bob", "message": "memo"}''\<close>

definition demo_parse :: "bytes \<Rightarrow> json option" where
  "demo_parse =
     map_of [(wire_hello_carol, Dict (to_json hello_carol)),
             (wire_hello_bob, Dict (to_json hello_bob)),
             (wire_all_bob, Dict (to_json all_bob)),
             (wire_all_alice, Dict (to_json all_alice)),
             (wire_bob_to_alice, Dict (to_json bob_to_alice)),
             (wire_bob_to_bob, Dict (to_json bob_to_bob))]"

definition demo_env :: env where
  "demo_env =
     \<lparr>LIMIT_MESSAGES = 2, LIMIT_SHOW_MESSAGES = 1, LIFETIME_MESSAGES = 60,
      clock = (\<lambda>n. 1000 + int n),
      str_dt = (\<lambda>t. if t < 1000 then ''earlier'' else ''later''),
      json_parse = demo_parse,
      peername = (\<lambda>w. ''127.0.0.1'')\<rparr>"

definition demo_world :: world where
  "demo_world =
     \<lparr>users = [(''alice'', 1), (''bob'', 2)],
      registrations = [(''alice'', 10, 2), (''bob'', 30, 0)],
      messages = [(''one'', ''alice'', ''all'', 11), (''two'', ''alice'', ''all'', 12),
                  (''three'', ''alice'', ''bob'', 40)],
      sent = [], closed_writers = [], lost = [], logs = [], tick = 0, faults = []\<rparr>"

text \<open>
  The same system later: carol has joined on writer 3, and alice's connection is lost
  while her entry is still in the registry, since nothing ever removes one.
\<close>

definition stale_world :: world where
  "stale_world =
     demo_world\<lparr>users := [(''alice'', 1), (''bob'', 2), (''carol'', 3)],
                registrations := [(''alice'', 10, 2), (''bob'', 30, 0), (''carol'', 50, 0)],
                lost := [1]\<rparr>"


section \<open>Lemmas\<close>

lemma result_shape:
  "lost_or_fine r \<Longrightarrow>
   r = Inr (final_state r) \<or> r = Inl (ConnectionResetError, final_state r)"
  by (cases r) (auto simp: lost_or_fine_def raised_def final_state_def)

lemma final_state_simps [simp]:
  "final_state (Inr s) = s" "final_state (Inl (er, s)) = s"
  "raised (Inr s) = None" "raised (Inl (er, s)) = Some er"
  by (simp_all add: final_state_def raised_def)

lemma io_only_refl [simp]: "io_only s s"
  by (simp add: io_only_def)

lemma io_only_trans: "io_only s s1 \<Longrightarrow> io_only s1 s2 \<Longrightarrow> io_only s s2"
  by (simp add: io_only_def)

lemma write_drain_eq:
  "write_drain w l s =
     (if w \<in> set (lost s)
      then Inl (ConnectionResetError, s\<lparr>sent := sent s @ [(w, l)]\<rparr>)
      else Inr (s\<lparr>sent := sent s @ [(w, l)]\<rparr>))"
  by (simp add: write_drain_def drain_def stream_write_def)

lemma send_to_all_loop_io:
  "io_only s (final_state (send_to_all_loop e self_writer sd m ws s)) \<and>
   lost_or_fine (send_to_all_loop e self_writer sd m ws s)"
proof (induction ws arbitrary: s)
  case Nil
  show ?case by (simp add: lost_or_fine_def)
next
  case (Cons w ws)
  let ?s2 = "s\<lparr>tick := Suc (tick s), sent := sent s @ [(w, format_line e (clock e (tick s)) sd m)]\<rparr>"
  have a: "io_only s ?s2" by (simp add: io_only_def)
  show ?case
    using Cons [of s] Cons [of ?s2] io_only_trans [OF a]
    by (auto simp: now_def write_drain_eq lost_or_fine_def)
qed

lemma send_to_one_loop_io:
  "io_only s (final_state (send_to_one_loop e sd m rcv items s)) \<and>
   lost_or_fine (send_to_one_loop e sd m rcv items s)"
proof (induction items arbitrary: s)
  case Nil
  show ?case by (simp add: lost_or_fine_def)
next
  case (Cons p items)
  obtain k w where p: "p = (k, w)" by (cases p)
  let ?s2 = "s\<lparr>tick := Suc (tick s), sent := sent s @ [(w, format_line e (clock e (tick s)) sd m)]\<rparr>"
  have a: "io_only s ?s2" by (simp add: io_only_def)
  show ?case
    using Cons [of s] Cons [of ?s2] io_only_trans [OF a] p
    by (auto simp: now_def write_drain_eq lost_or_fine_def)
qed

lemma send_hello_loop_io:
  "io_only s (final_state (send_hello_loop self_writer sd ws s)) \<and>
   tick (final_state (send_hello_loop self_writer sd ws s)) = tick s \<and>
   lost_or_fine (send_hello_loop self_writer sd ws s)"
proof (induction ws arbitrary: s)
  case Nil
  show ?case by (simp add: lost_or_fine_def)
next
  case (Cons w ws)
  let ?s2 = "s\<lparr>sent := sent s @ [(w, hello_line sd)]\<rparr>"
  have a: "io_only s ?s2" by (simp add: io_only_def)
  show ?case
    using Cons [of s] Cons [of ?s2] io_only_trans [OF a]
    by (auto simp: write_drain_eq lost_or_fine_def)
qed

lemma write_all_io:
  "io_only s (final_state (write_all w ls s)) \<and>
   tick (final_state (write_all w ls s)) = tick s \<and>
   lost_or_fine (write_all w ls s)"
proof (induction ls arbitrary: s)
  case Nil
  show ?case by (simp add: lost_or_fine_def)
next
  case (Cons l ls)
  let ?s2 = "s\<lparr>sent := sent s @ [(w, l)]\<rparr>"
  have a: "io_only s ?s2" by (simp add: io_only_def)
  show ?case
    using Cons [of ?s2] io_only_trans [OF a]
    by (auto simp: write_drain_eq lost_or_fine_def)
qed

lemma send_limit_warning_eq:
  "send_limit_warning w s =
     (if w \<in> set (lost s)
      then Inl (ConnectionResetError, s\<lparr>sent := sent s @ [(w, limit_warning_line)]\<rparr>)
      else Inr (s\<lparr>sent := sent s @ [(w, limit_warning_line)]\<rparr>))"
  by (simp add: send_limit_warning_def write_drain_eq)

text \<open>The loops when no connection written to is lost.\<close>

lemma write_all_alive:
  "w \<notin> set (lost s) \<Longrightarrow>
   write_all w ls s = Inr (s\<lparr>sent := sent s @ map (Pair w) ls\<rparr>)"
  by (induction ls arbitrary: s) (simp_all add: write_drain_eq)

lemma send_hello_loop_alive:
  "\<forall>w \<in> set ws. w \<noteq> self_writer \<longrightarrow> w \<notin> set (lost s) \<Longrightarrow>
   send_hello_loop self_writer sd ws s =
     Inr (s\<lparr>sent := sent s @
                 map (\<lambda>w. (w, hello_line sd)) (filter (\<lambda>w. w \<noteq> self_writer) ws)\<rparr>)"
  by (induction ws arbitrary: s) (simp_all add: write_drain_eq)

lemma send_to_all_loop_alive:
  "\<forall>w \<in> set ws. w \<noteq> self_writer \<longrightarrow> w \<notin> set (lost s) \<Longrightarrow>
   send_to_all_loop e self_writer sd m ws s =
     Inr (s\<lparr>sent := sent s @
               map (\<lambda>(k, w). (w, format_line e (clock e k) sd m))
                 (zip [tick s..<tick s + length (filter (\<lambda>w. w \<noteq> self_writer) ws)]
                      (filter (\<lambda>w. w \<noteq> self_writer) ws)),
             tick := tick s + length (filter (\<lambda>w. w \<noteq> self_writer) ws)\<rparr>)"
proof (induction ws arbitrary: s)
  case Nil
  then show ?case by simp
next
  case (Cons w ws)
  show ?case
  proof (cases "w = self_writer")
    case True
    then show ?thesis using Cons by simp
  next
    case False
    let ?s2 = "s\<lparr>tick := Suc (tick s),
                  sent := sent s @ [(w, format_line e (clock e (tick s)) sd m)]\<rparr>"
    have "\<forall>w \<in> set ws. w \<noteq> self_writer \<longrightarrow> w \<notin> set (lost ?s2)"
      using Cons.prems by simp
    from Cons.IH [OF this] show ?thesis
      using False Cons.prems by (simp add: now_def write_drain_eq upt_rec)
  qed
qed

lemma send_to_one_loop_absent:
  "rcv \<notin> set (map fst items) \<Longrightarrow> send_to_one_loop e sd m rcv items s = Inr s"
  by (induction items arbitrary: s) auto

lemma send_to_one_loop_distinct:
  "distinct (map fst items) \<Longrightarrow>
   send_to_one_loop e sd m rcv items s =
     (case map_of items rcv of
        None \<Rightarrow> Inr s
      | Some wr \<Rightarrow>
          (if wr \<in> set (lost s)
           then Inl (ConnectionResetError,
                     s\<lparr>tick := Suc (tick s),
                       sent := sent s @ [(wr, format_line e (clock e (tick s)) sd m)]\<rparr>)
           else Inr (s\<lparr>tick := Suc (tick s),
                       sent := sent s @ [(wr, format_line e (clock e (tick s)) sd m)]\<rparr>)))"
proof (induction items arbitrary: s)
  case Nil
  then show ?case by simp
next
  case (Cons p items)
  obtain k v where p: "p = (k, v)" by (cases p)
  show ?case
  proof (cases "k = rcv")
    case True
    with Cons.prems p have "rcv \<notin> set (map fst items)" by auto
    then show ?thesis using True p
      by (simp add: send_to_one_loop_absent now_def write_drain_eq)
  next
    case False
    then show ?thesis using Cons p by simp
  qed
qed

lemma connect_eq: "connect s = (nth_fault 0 s, s\<lparr>faults := tl (faults s)\<rparr>)"
  by (cases "faults s") (simp_all add: connect_def nth_fault_def)

lemma nth_fault_tl: "faults s' = tl (faults s) \<Longrightarrow> nth_fault n s' = nth_fault (Suc n) s"
  by (cases "faults s") (simp_all add: nth_fault_def)

lemma nth_fault_drop:
  "faults s' = drop k (faults s) \<Longrightarrow> nth_fault n s' = nth_fault (k + n) s"
  by (auto simp: nth_fault_def)

lemma tl2_drop: "tl (tl xs) = drop 2 xs"
  by (simp add: eval_nat_numeral drop_Suc)

lemma tl3_drop: "tl (tl (tl xs)) = drop 3 xs"
  by (simp add: eval_nat_numeral drop_Suc)

text \<open>What a storage operation leaves alone, whether it is refused or not.\<close>

lemma create_record_in_db_io:
  "storage_only s (create_record_in_db e m sd r s) \<and>
   registrations (create_record_in_db e m sd r s) = registrations s"
  by (cases "nth_fault 0 s")
     (simp_all add: storage_only_def create_record_in_db_def connect_eq now_def logger_error_def)

lemma get_user_io:
  "storage_only s (snd (get_user u s)) \<and>
   registrations (snd (get_user u s)) = registrations s \<and>
   messages (snd (get_user u s)) = messages s \<and> tick (snd (get_user u s)) = tick s"
  by (cases "nth_fault 0 s")
     (simp_all add: storage_only_def get_user_def get_user_db_def connect_eq logger_error_def)

lemma reg_user_io:
  "storage_only s (reg_user e u s) \<and> messages (reg_user e u s) = messages s"
  by (cases "nth_fault 0 s")
     (simp_all add: storage_only_def reg_user_def create_user_db_record_def connect_eq now_def
        logger_error_def)

lemma append_count_message_io:
  "storage_only s (append_count_message u c s) \<and>
   messages (append_count_message u c s) = messages s \<and>
   tick (append_count_message u c s) = tick s"
  by (cases "nth_fault 0 s")
     (simp_all add: storage_only_def append_count_message_def append_count_message_db_def
        connect_eq logger_error_def)

lemma get_available_messages_db_io:
  "storage_only s (snd (get_available_messages_db e u rd s)) \<and>
   registrations (snd (get_available_messages_db e u rd s)) = registrations s \<and>
   messages (snd (get_available_messages_db e u rd s)) = messages s \<and>
   tick (snd (get_available_messages_db e u rd s)) = tick s"
  by (cases "nth_fault 0 s")
     (simp_all add: storage_only_def get_available_messages_db_def connect_eq logger_error_def)

lemma resolve_user_io:
  assumes "resolve_user e u s = (rd, c, s3)"
  shows "users s3 = users s \<and> sent s3 = sent s \<and> closed_writers s3 = closed_writers s \<and>
         lost s3 = lost s \<and> messages s3 = messages s \<and> tick s \<le> tick s3"
proof -
  obtain ex s2 where g: "get_user u s = (ex, s2)" by (cases "get_user u s")
  have f2: "storage_only s s2 \<and> messages s2 = messages s \<and> tick s2 = tick s"
    using get_user_io [of s u] g by simp
  note f3 = reg_user_io [of s2 e u]
  show ?thesis
  proof (cases ex)
    case None
    with assms g have "s3 = (reg_user e u s2)\<lparr>tick := Suc (tick (reg_user e u s2))\<rparr>"
      by (simp add: resolve_user_def now_def)
    then show ?thesis using f2 f3 by (simp add: storage_only_def)
  next
    case (Some row)
    with assms g have "s3 = s2" by (auto simp: resolve_user_def split: prod.splits)
    then show ?thesis using f2 by (simp add: storage_only_def)
  qed
qed

text \<open>The senders, whatever the state of the connections.\<close>

lemma send_to_all_io:
  "io_only s (final_state (send_to_all e w u m s)) \<and> lost_or_fine (send_to_all e w u m s)"
  by (simp add: send_to_all_def send_to_all_loop_io)

lemma send_to_one_io:
  "io_only s (final_state (send_to_one e u m rcv s)) \<and> lost_or_fine (send_to_one e u m rcv s)"
  by (simp add: send_to_one_def send_to_one_loop_io)

lemma send_hello_io:
  "io_only s (final_state (send_hello w u s)) \<and>
   tick (final_state (send_hello w u s)) = tick s \<and> lost_or_fine (send_hello w u s)"
  by (simp add: send_hello_def send_hello_loop_io)

lemma send_limit_warning_io:
  "io_only s (final_state (send_limit_warning w s)) \<and>
   tick (final_state (send_limit_warning w s)) = tick s \<and>
   lost_or_fine (send_limit_warning w s)"
  by (simp add: send_limit_warning_eq io_only_def lost_or_fine_def)

lemma send_available_messages_io:
  "users (final_state (send_available_messages e u w rd s)) = users s \<and>
   registrations (final_state (send_available_messages e u w rd s)) = registrations s \<and>
   messages (final_state (send_available_messages e u w rd s)) = messages s \<and>
   closed_writers (final_state (send_available_messages e u w rd s)) = closed_writers s \<and>
   lost (final_state (send_available_messages e u w rd s)) = lost s \<and>
   tick (final_state (send_available_messages e u w rd s)) = tick s \<and>
   faults (final_state (send_available_messages e u w rd s)) = tl (faults s) \<and>
   lost_or_fine (send_available_messages e u w rd s)"
proof -
  obtain ms s1 where g: "get_available_messages_db e u rd s = (ms, s1)"
    by (cases "get_available_messages_db e u rd s")
  have f: "storage_only s s1 \<and> registrations s1 = registrations s \<and>
           messages s1 = messages s \<and> tick s1 = tick s"
    using get_available_messages_db_io [of s e u rd] g by simp
  show ?thesis
    using f write_all_io [of s1 w "map (backlog_line e) ms"] g
    by (simp add: send_available_messages_def storage_only_def io_only_def)
qed

lemma to_json_keys:
  "to_json r ''username'' = Some (username r)"
  "to_json r ''target'' = Some (target r)"
  "to_json r ''receiver'' = Some (receiver r)"
  "to_json r ''message'' = Some (message r)"
  by (simp_all add: to_json_def)

lemma store_message_request:
  "store_message e (to_json r) s =
     Inr (create_record_in_db e (message r) (username r) (receiver r) s)"
  by (simp add: store_message_def to_json_keys)

lemma process_data_request:
  assumes "json_loads e data = Some (Dict (to_json r))"
  shows "process_data e data w s =
     (case resolve_user e (username r)
             (if target r \<noteq> ''hello''
              then create_record_in_db e (message r) (username r) (receiver r) s else s) of
        (rd, c, s3) \<Rightarrow>
          if target r = ''hello'' then
            (case send_available_messages e (username r) w rd s3 of
               Inl x \<Rightarrow> Inl x
             | Inr s4 \<Rightarrow>
                 send_hello w (username r) (s4\<lparr>users := dict_set (username r) w (users s4)\<rparr>))
          else if target r = ''all'' then
            (if LIMIT_MESSAGES e \<le> c then send_limit_warning w s3
             else (case send_to_all e w (username r) (message r) s3 of
                     Inl x \<Rightarrow> Inl x
                   | Inr s4 \<Rightarrow> Inr (append_count_message (username r) c s4)))
          else if target r = ''one_to_one'' then
            send_to_one e (username r) (message r) (receiver r) s3
          else Inr s3)"
  using assms
  by (simp add: process_data_def to_json_keys store_message_request split: prod.splits)

text \<open>The three dispatch branches of a request, from the state after the user resolution.\<close>

lemma hello_branch_io:
  fixes e u w rd s3
  defines "r \<equiv> (case send_available_messages e u w rd s3 of
                    Inl x \<Rightarrow> Inl x
                  | Inr s4 \<Rightarrow> send_hello w u (s4\<lparr>users := dict_set u w (users s4)\<rparr>))"
  shows "registrations (final_state r) = registrations s3 \<and>
         messages (final_state r) = messages s3 \<and>
         closed_writers (final_state r) = closed_writers s3 \<and>
         lost (final_state r) = lost s3 \<and>
         tick (final_state r) = tick s3 \<and>
         faults (final_state r) = tl (faults s3) \<and>
         lost_or_fine r"
proof (cases "send_available_messages e u w rd s3")
  case (Inl x)
  then show ?thesis
    using send_available_messages_io [of e u w rd s3]
    by (cases x) (simp add: r_def lost_or_fine_def)
next
  case (Inr s4)
  then show ?thesis
    using send_available_messages_io [of e u w rd s3]
      send_hello_io [of "s4\<lparr>users := dict_set u w (users s4)\<rparr>" w u]
    by (simp add: r_def io_only_def)
qed

lemma all_branch_io:
  fixes e u w m c s3
  defines "r \<equiv> (case send_to_all e w u m s3 of
                    Inl x \<Rightarrow> Inl x
                  | Inr s4 \<Rightarrow> Inr (append_count_message u c s4))"
  shows "users (final_state r) = users s3 \<and>
         messages (final_state r) = messages s3 \<and>
         closed_writers (final_state r) = closed_writers s3 \<and>
         lost (final_state r) = lost s3 \<and>
         lost_or_fine r"
proof (cases "send_to_all e w u m s3")
  case (Inl x)
  then show ?thesis
    using send_to_all_io [of s3 e w u m]
    by (cases x) (simp add: r_def lost_or_fine_def io_only_def)
next
  case (Inr s4)
  then show ?thesis
    using send_to_all_io [of s3 e w u m] append_count_message_io [of s4 u c]
    by (simp add: r_def io_only_def storage_only_def lost_or_fine_def)
qed

lemma process_data_wf:
  assumes "json_loads e data = Some (Dict (to_json r))"
  shows "lost_or_fine (process_data e data w s) \<and>
         closed_writers (final_state (process_data e data w s)) = closed_writers s \<and>
         lost (final_state (process_data e data w s)) = lost s \<and>
         messages (final_state (process_data e data w s)) =
           messages (if target r \<noteq> ''hello''
                     then create_record_in_db e (message r) (username r) (receiver r) s else s)"
proof -
  let ?s1 = "if target r \<noteq> ''hello''
             then create_record_in_db e (message r) (username r) (receiver r) s else s"
  obtain rd c s3 where res: "resolve_user e (username r) ?s1 = (rd, c, s3)"
    by (cases "resolve_user e (username r) ?s1")
  have f1: "closed_writers ?s1 = closed_writers s \<and> lost ?s1 = lost s"
    using create_record_in_db_io [of s e "message r" "username r" "receiver r"]
    by (simp add: storage_only_def)
  note f3 = resolve_user_io [OF res]
  show ?thesis
    using res f1 f3
      hello_branch_io [where e = e and u = "username r" and w = w and rd = rd and ?s3.0 = s3]
      all_branch_io [where e = e and w = w and u = "username r" and m = "message r"
                       and ?s3.0 = s3 and c = c]
      send_limit_warning_io [of s3 w]
      send_to_one_io [of s3 e "username r" "message r" "receiver r"]
    by (simp add: process_data_request [OF assms] io_only_def lost_or_fine_def)
qed

lemma closed_store_message:
  "closed_writers (final_state (store_message e d s)) = closed_writers s"
  using create_record_in_db_io
  by (auto simp: store_message_def storage_only_def split: option.splits)

lemma process_data_closed:
  "closed_writers (final_state (process_data e data w s)) = closed_writers s"
proof (cases "json_loads e data")
  case None
  then show ?thesis by (simp add: process_data_def)
next
  case (Some j)
  show ?thesis
  proof (cases j)
    case NotADict
    with Some show ?thesis by (simp add: process_data_def)
  next
    case (Dict d)
    show ?thesis
    proof (cases "d ''target''")
      case None
      with Some Dict show ?thesis by (simp add: process_data_def)
    next
      case tg: (Some tgt)
      show ?thesis
      proof (cases "d ''username''")
        case None
        with Some Dict tg show ?thesis by (simp add: process_data_def)
      next
        case us: (Some user)
        show ?thesis
        proof (cases "if tgt \<noteq> ''hello'' then store_message e d s else Inr s")
          case (Inl x)
          then have "closed_writers (final_state (Inl x :: world result)) = closed_writers s"
            using closed_store_message [of e d s] by (auto split: if_splits)
          moreover have "process_data e data w s = Inl x"
            using Some Dict tg us Inl by (simp add: process_data_def)
          ultimately show ?thesis by simp
        next
          case (Inr s1)
          then have c1: "closed_writers s1 = closed_writers s"
            using closed_store_message [of e d s] by (auto split: if_splits)
          obtain rd c s3 where r: "resolve_user e user s1 = (rd, c, s3)"
            by (cases "resolve_user e user s1")
          have c3: "closed_writers s3 = closed_writers s"
            using resolve_user_io [OF r] c1 by simp
          have "process_data e data w s =
                 (if tgt = ''hello'' then
                    (case send_available_messages e user w rd s3 of
                       Inl x \<Rightarrow> Inl x
                     | Inr s4 \<Rightarrow>
                         send_hello w user (s4\<lparr>users := dict_set user w (users s4)\<rparr>))
                  else if tgt = ''all'' then
                    (if LIMIT_MESSAGES e \<le> c
                     then send_limit_warning w s3
                     else (case d ''message'' of
                             None \<Rightarrow> Inl (KeyError ''message'', s3)
                           | Some msg \<Rightarrow>
                               (case send_to_all e w user msg s3 of
                                  Inl x \<Rightarrow> Inl x
                                | Inr s4 \<Rightarrow> Inr (append_count_message user c s4))))
                  else if tgt = ''one_to_one'' then
                    (case d ''message'' of
                       None \<Rightarrow> Inl (KeyError ''message'', s3)
                     | Some msg \<Rightarrow>
                    (case d ''receiver'' of
                       None \<Rightarrow> Inl (KeyError ''receiver'', s3)
                     | Some rcv \<Rightarrow> send_to_one e user msg rcv s3))
                  else Inr s3)"
            using Some Dict tg us Inr r by (simp add: process_data_def)
          then show ?thesis
            using c3
              hello_branch_io [where e = e and u = user and w = w and rd = rd and ?s3.0 = s3]
              all_branch_io [where e = e and w = w and u = user and ?s3.0 = s3 and c = c]
              send_limit_warning_io [of s3 w] send_to_one_io [of s3 e user]
            by (auto simp: io_only_def split: option.splits)
        qed
      qed
    qed
  qed
qed

lemma serve_raises:
  "\<exists>er s'. serve e reads w s = Inl (er, s') \<and> closed_writers s' = closed_writers s"
proof (induction reads arbitrary: s)
  case Nil
  show ?case by (simp add: process_data_def json_loads_def)
next
  case (Cons data later)
  show ?case
  proof (cases "process_data e data w s")
    case (Inl x)
    then show ?thesis
      using process_data_closed [of e data w s] by (cases x) simp
  next
    case (Inr s1)
    then have ne: "data \<noteq> []" by (auto simp: process_data_def json_loads_def)
    have "closed_writers s1 = closed_writers s"
      using process_data_closed [of e data w s] Inr by simp
    then show ?thesis using Cons [of s1] Inr ne by simp
  qed
qed

lemma create_record_in_db_ok:
  "nth_fault 0 s = None \<Longrightarrow>
   create_record_in_db e m sd r s =
     s\<lparr>faults := tl (faults s), tick := Suc (tick s),
       messages := messages s @ [(m, sd, if r = [] then ''all'' else r, clock e (tick s))]\<rparr>"
  by (simp add: create_record_in_db_def connect_eq now_def)

lemma get_user_ok:
  "nth_fault 0 s = None \<Longrightarrow>
   get_user u s = (find (\<lambda>row. fst row = u) (registrations s), s\<lparr>faults := tl (faults s)\<rparr>)"
  by (simp add: get_user_def get_user_db_def connect_eq)

lemma reg_user_ok:
  "nth_fault 0 s = None \<Longrightarrow> u \<notin> set (map fst (registrations s)) \<Longrightarrow>
   reg_user e u s =
     s\<lparr>faults := tl (faults s), tick := Suc (tick s),
       registrations := registrations s @ [(u, clock e (tick s), 0)]\<rparr>"
  by (simp add: reg_user_def create_user_db_record_def connect_eq now_def)

lemma find_None_fst: "find (\<lambda>row. fst row = u) xs = None \<longleftrightarrow> u \<notin> set (map fst xs)"
  by (induction xs) auto

lemma find_Some_fst: "find (\<lambda>row. fst row = u) xs = Some row \<Longrightarrow> fst row = u"
  by (induction xs) (auto split: if_splits)

lemma find_appended_new:
  "u \<notin> set (map fst xs) \<Longrightarrow> find (\<lambda>row. fst row = u) (xs @ [(u, t, c)]) = Some (u, t, c)"
  by (induction xs) auto

lemma find_after_update:
  "find (\<lambda>row. fst row = u)
     (map (\<lambda>(u', rd, k). if u' = u then (u', rd, c) else (u', rd, k)) regs) =
   map_option (\<lambda>(u', rd, k). (u', rd, c)) (find (\<lambda>row. fst row = u) regs)"
  by (induction regs) auto

lemma resolve_user_found:
  assumes "nth_fault 0 s = None"
    and "find (\<lambda>row. fst row = u) (registrations s) = Some (u', rd, c)"
  shows "resolve_user e u s = (rd, c, s\<lparr>faults := tl (faults s)\<rparr>)"
  using assms by (simp add: resolve_user_def get_user_ok)

lemma resolve_user_new:
  assumes "nth_fault 0 s = None" and "nth_fault 1 s = None"
    and "u \<notin> set (map fst (registrations s))"
  shows "resolve_user e u s =
           (clock e (Suc (tick s)), 0,
            s\<lparr>faults := tl (tl (faults s)), tick := Suc (Suc (tick s)),
              registrations := registrations s @ [(u, clock e (tick s), 0)]\<rparr>)"
proof -
  let ?s2 = "s\<lparr>faults := tl (faults s)\<rparr>"
  have f: "find (\<lambda>row. fst row = u) (registrations s) = None"
    using assms(3) by (simp add: find_None_fst)
  have n: "nth_fault 0 ?s2 = None"
    using assms(2) nth_fault_tl [of ?s2 s 0] by simp
  show ?thesis
    using assms(1,3) f n by (simp add: resolve_user_def get_user_ok reg_user_ok now_def)
qed

lemma append_count_message_ok:
  "nth_fault 0 s = None \<Longrightarrow>
   append_count_message u c s =
     s\<lparr>faults := tl (faults s),
       registrations :=
         map (\<lambda>(u', rd, k). if u' = u then (u', rd, c + 1) else (u', rd, k)) (registrations s)\<rparr>"
  by (simp add: append_count_message_def append_count_message_db_def connect_eq)

lemma format_line_text:
  "format_line e t sd m = str_dt e t @ '' '' @ sd @ '': '' @ m @ [CHR 0x0A]"
  by (simp add: format_line_def newline_def)

lemma one_to_one_core:
  assumes "json_loads e data = Some (Dict (to_json r))" and "target r = ''one_to_one''"
    and "distinct (map fst (users s))"
  shows "\<exists>s3. tick s \<le> tick s3 \<and> users s3 = users s \<and> sent s3 = sent s \<and>
           lost s3 = lost s \<and>
           process_data e data w s =
             (case map_of (users s) (receiver r) of
                None \<Rightarrow> Inr s3
              | Some wr \<Rightarrow>
                  (if wr \<in> set (lost s)
                   then Inl (ConnectionResetError,
                          s3\<lparr>tick := Suc (tick s3),
                             sent := sent s3 @
                               [(wr, format_line e (clock e (tick s3)) (username r) (message r))]\<rparr>)
                   else Inr (s3\<lparr>tick := Suc (tick s3),
                             sent := sent s3 @
                               [(wr, format_line e (clock e (tick s3)) (username r) (message r))]\<rparr>)))"
proof -
  let ?s1 = "create_record_in_db e (message r) (username r) (receiver r) s"
  obtain rd c s3 where res: "resolve_user e (username r) ?s1 = (rd, c, s3)"
    by (cases "resolve_user e (username r) ?s1")
  have io: "users s3 = users s \<and> tick s \<le> tick s3 \<and> sent s3 = sent s \<and> lost s3 = lost s"
    using resolve_user_io [OF res]
      create_record_in_db_io [of s e "message r" "username r" "receiver r"]
    by (simp add: storage_only_def)
  have "process_data e data w s = send_to_one e (username r) (message r) (receiver r) s3"
    using assms(1,2) res by (simp add: process_data_request)
  then have "process_data e data w s =
             (case map_of (users s) (receiver r) of
                None \<Rightarrow> Inr s3
              | Some wr \<Rightarrow>
                  (if wr \<in> set (lost s)
                   then Inl (ConnectionResetError,
                          s3\<lparr>tick := Suc (tick s3),
                             sent := sent s3 @
                               [(wr, format_line e (clock e (tick s3)) (username r) (message r))]\<rparr>)
                   else Inr (s3\<lparr>tick := Suc (tick s3),
                             sent := sent s3 @
                               [(wr, format_line e (clock e (tick s3)) (username r) (message r))]\<rparr>)))"
    using assms(3) io
    by (simp add: send_to_one_def send_to_one_loop_distinct split: option.splits)
  then show ?thesis using io by blast
qed

lemma all_request_known_user:
  assumes "json_loads e data = Some (Dict (to_json r))" and "target r = ''all''"
    and "find (\<lambda>row. fst row = username r) (registrations s) = Some (u, rd, c)"
    and "nth_fault 1 s = None"
  shows "\<exists>s3. users s3 = users s \<and> sent s3 = sent s \<and> registrations s3 = registrations s \<and>
           lost s3 = lost s \<and> tick s \<le> tick s3 \<and> faults s3 = tl (tl (faults s)) \<and>
           process_data e data w s =
             (if LIMIT_MESSAGES e \<le> c then send_limit_warning w s3
              else (case send_to_all e w (username r) (message r) s3 of
                      Inl x \<Rightarrow> Inl x
                    | Inr s4 \<Rightarrow> Inr (append_count_message (username r) c s4)))"
proof -
  let ?s1 = "create_record_in_db e (message r) (username r) (receiver r) s"
  let ?s3 = "?s1\<lparr>faults := tl (faults ?s1)\<rparr>"
  have io: "storage_only s ?s1 \<and> registrations ?s1 = registrations s"
    by (rule create_record_in_db_io)
  then have f1: "faults ?s1 = tl (faults s)" by (simp add: storage_only_def)
  have n: "nth_fault 0 ?s1 = None" using nth_fault_tl [OF f1, of 0] assms(4) by simp
  have fd: "find (\<lambda>row. fst row = username r) (registrations ?s1) = Some (u, rd, c)"
    using io assms(3) by simp
  have res: "resolve_user e (username r) ?s1 = (rd, c, ?s3)"
    by (rule resolve_user_found [OF n fd])
  have "process_data e data w s =
             (if LIMIT_MESSAGES e \<le> c then send_limit_warning w ?s3
              else (case send_to_all e w (username r) (message r) ?s3 of
                      Inl x \<Rightarrow> Inl x
                    | Inr s4 \<Rightarrow> Inr (append_count_message (username r) c s4)))"
    using assms(2) res by (simp add: process_data_request [OF assms(1)])
  moreover have "users ?s3 = users s \<and> sent ?s3 = sent s \<and>
      registrations ?s3 = registrations s \<and> lost ?s3 = lost s \<and> tick s \<le> tick ?s3 \<and>
      faults ?s3 = tl (tl (faults s))"
    using io by (simp add: storage_only_def)
  ultimately show ?thesis by blast
qed



lemma map_of_dict_set: "map_of (dict_set k v kvs) = (map_of kvs)(k \<mapsto> v)"
  by (induction kvs) (auto simp: fun_eq_iff)

lemma keys_dict_set:
  "map fst (dict_set k v kvs) =
     (if k \<in> set (map fst kvs) then map fst kvs else map fst kvs @ [k])"
proof (induction kvs)
  case Nil
  show ?case by simp
next
  case (Cons p kvs)
  obtain k' v' where p: "p = (k', v')" by (cases p)
  show ?case using Cons p by (cases "k' = k") simp_all
qed

lemma values_dict_set:
  "x \<in> set (map snd (dict_set k v kvs)) \<Longrightarrow> x = v \<or> x \<in> set (map snd kvs)"
proof (induction kvs)
  case Nil
  then show ?case by simp
next
  case (Cons p kvs)
  obtain k' v' where p: "p = (k', v')" by (cases p)
  show ?case using Cons p by (cases "k' = k") auto
qed

lemma filter_absent_key: "k \<notin> set (map fst kvs) \<Longrightarrow> filter (\<lambda>p. fst p \<noteq> k) kvs = kvs"
  by (induction kvs) auto

lemma recipients_dict_set:
  "distinct (map fst kvs) \<Longrightarrow>
   filter (\<lambda>w'. w' \<noteq> v) (map snd (dict_set k v kvs)) =
   filter (\<lambda>w'. w' \<noteq> v) (map snd (filter (\<lambda>p. fst p \<noteq> k) kvs))"
  by (induction kvs) (auto simp: filter_absent_key)

lemma backlog_line_text:
  "backlog_line e = (\<lambda>(text, sender, t). str_dt e t @ '' '' @ sender @ '': '' @ text @ [CHR 0x0A])"
  by (auto simp: fun_eq_iff backlog_line_def format_line_text)

lemma hello_line_text: "hello_line u = ''New guest in the chat! - '' @ u @ [CHR 0x0A]"
  by (simp add: hello_line_def newline_def)

lemma hello_core:
  assumes "json_loads e data = Some (Dict (to_json r))" and "target r = ''hello''"
    and "resolve_user e (username r) s = (rd, c, s3)"
    and "get_available_messages_db e (username r) rd s3 = (ms, s4)"
    and "w \<notin> set (lost s)"
    and "\<forall>w' \<in> set (map snd (users s)). w' \<noteq> w \<longrightarrow> w' \<notin> set (lost s)"
  shows "process_data e data w s =
           Inr (s4\<lparr>sent := sent s @ map (\<lambda>m. (w, backlog_line e m)) ms @
                         map (\<lambda>w'. (w', hello_line (username r)))
                           (filter (\<lambda>w'. w' \<noteq> w)
                              (map snd (dict_set (username r) w (users s)))),
                   users := dict_set (username r) w (users s)\<rparr>)"
proof -
  note io3 = resolve_user_io [OF assms(3)]
  have io4: "users s4 = users s3 \<and> sent s4 = sent s3 \<and> lost s4 = lost s3"
    using get_available_messages_db_io [of s3 e "username r" rd] assms(4)
    by (simp add: storage_only_def)
  define s5 where "s5 = s4\<lparr>sent := sent s @ map (\<lambda>m. (w, backlog_line e m)) ms\<rparr>"
  have sa: "send_available_messages e (username r) w rd s3 = Inr s5"
    using assms(4,5) io3 io4
    by (simp add: send_available_messages_def write_all_alive comp_def s5_def)
  define s6 where "s6 = s5\<lparr>users := dict_set (username r) w (users s5)\<rparr>"
  have u6: "users s6 = dict_set (username r) w (users s)" "lost s6 = lost s"
    "sent s6 = sent s @ map (\<lambda>m. (w, backlog_line e m)) ms"
    using io3 io4 by (simp_all add: s6_def s5_def)
  have alive: "\<forall>w' \<in> set (map snd (users s6)). w' \<noteq> w \<longrightarrow> w' \<notin> set (lost s6)"
  proof
    fix w' assume m: "w' \<in> set (map snd (users s6))"
    show "w' \<noteq> w \<longrightarrow> w' \<notin> set (lost s6)"
      using values_dict_set [of w' "username r" w "users s"] m assms(6) u6 by auto
  qed
  have sh: "send_hello w (username r) s6 =
              Inr (s6\<lparr>sent := sent s6 @
                     map (\<lambda>w'. (w', hello_line (username r)))
                       (filter (\<lambda>w'. w' \<noteq> w) (map snd (users s6)))\<rparr>)"
    using send_hello_loop_alive [OF alive] by (simp add: send_hello_def)
  have "process_data e data w s = send_hello w (username r) s6"
    using assms(2,3) sa by (simp add: process_data_request [OF assms(1)] s6_def)
  then show ?thesis
    using sh u6 io3 io4 by (simp add: s6_def s5_def)
qed

lemma hello_known_user:
  assumes "json_loads e data = Some (Dict (to_json r))" and "target r = ''hello''"
    and "resolve_user e (username r) s = (rd, c, s3)"
  shows "lost_or_fine (process_data e data w s) \<and>
         registrations (final_state (process_data e data w s)) = registrations s3 \<and>
         tick (final_state (process_data e data w s)) = tick s3 \<and>
         faults (final_state (process_data e data w s)) = tl (faults s3) \<and>
         (nth_fault 0 s3 = None \<longrightarrow>
            logs (final_state (process_data e data w s)) = logs s3)"
proof -
  let ?r = "case send_available_messages e (username r) w rd s3 of
              Inl x \<Rightarrow> Inl x
            | Inr s4 \<Rightarrow>
                send_hello w (username r) (s4\<lparr>users := dict_set (username r) w (users s4)\<rparr>)"
  have p: "process_data e data w s = ?r"
    using assms(2,3) by (simp add: process_data_request [OF assms(1)])
  note b = hello_branch_io [where e = e and u = "username r" and w = w and rd = rd and ?s3.0 = s3]
  have l: "nth_fault 0 s3 = None \<longrightarrow> logs (final_state ?r) = logs s3"
  proof
    assume n: "nth_fault 0 s3 = None"
    obtain ms s4 where g: "get_available_messages_db e (username r) rd s3 = (ms, s4)"
      by (cases "get_available_messages_db e (username r) rd s3")
    have l4: "logs s4 = logs s3"
      using g n by (auto simp: get_available_messages_db_def connect_eq)
    show "logs (final_state ?r) = logs s3"
    proof (cases "write_all w (map (backlog_line e) ms) s4")
      case (Inl x)
      then show ?thesis
        using write_all_io [of s4 w "map (backlog_line e) ms"] g l4
        by (cases x) (simp add: send_available_messages_def io_only_def)
    next
      case (Inr s5)
      then show ?thesis
        using write_all_io [of s4 w "map (backlog_line e) ms"] g l4
          send_hello_io [of "s5\<lparr>users := dict_set (username r) w (users s5)\<rparr>" w "username r"]
        by (simp add: send_available_messages_def io_only_def)
    qed
  qed
  show ?thesis using b l unfolding p by simp
qed





lemma demo_loads:
  "json_loads demo_env wire_hello_carol = Some (Dict (to_json hello_carol))"
  "json_loads demo_env wire_hello_bob = Some (Dict (to_json hello_bob))"
  "json_loads demo_env wire_all_bob = Some (Dict (to_json all_bob))"
  "json_loads demo_env wire_all_alice = Some (Dict (to_json all_alice))"
  "json_loads demo_env wire_bob_to_alice = Some (Dict (to_json bob_to_alice))"
  "json_loads demo_env wire_bob_to_bob = Some (Dict (to_json bob_to_bob))"
  by (simp_all add: json_loads_def demo_env_def demo_parse_def wire_hello_carol_def
        wire_hello_bob_def wire_all_bob_def wire_all_alice_def wire_bob_to_alice_def
        wire_bob_to_bob_def)

lemmas request_defs = hello_carol_def hello_bob_def all_bob_def all_alice_def
  bob_to_alice_def bob_to_bob_def

lemmas run_defs = process_data_def to_json_def store_message_def create_record_in_db_def
  connect_def now_def resolve_user_def get_user_def get_user_db_def reg_user_def
  create_user_db_record_def send_to_all_def send_to_one_def send_hello_def
  send_limit_warning_def send_available_messages_def get_available_messages_db_def
  get_message_query_def rows_since_def rows_until_def sql_limit_def qualifying_def
  select_columns_def send_date_def backlog_line_def format_line_def hello_line_def
  limit_warning_line_def newline_def write_drain_def drain_def stream_write_def
  append_count_message_def append_count_message_db_def logger_error_def

section \<open>The claims\<close>

text \<open>
  C5. A request with target \<open>one_to_one\<close> naming receiver R, for any behaviour of the
  storage engine, leaves the registry as it is. When R is not a key of the registry,
  nothing is written to any writer, the sender's included, and the request returns
  normally. When R is a key, exactly one line is written, to R's writer: the clock
  reading of the write, a space, the sender, a colon and a space, the text, a newline;
  the request then returns normally unless R's connection is lost, in which case the
  drain after that write raises. The registry is a dict: its keys are distinct.
\<close>

theorem one_to_one_delivery:
  assumes "json_loads e data = Some (Dict (to_json r))" and "target r = ''one_to_one''"
    and "distinct (map fst (users s))"
  shows "\<exists>s'. users s' = users s \<and>
           (case map_of (users s) (receiver r) of
              None \<Rightarrow> process_data e data w s = Inr s' \<and> sent s' = sent s
            | Some wr \<Rightarrow>
                (\<exists>k. tick s \<le> k \<and>
                   sent s' = sent s @
                     [(wr, str_dt e (clock e k) @ '' '' @ username r @ '': '' @ message r @
                           [CHR 0x0A])]) \<and>
                process_data e data w s =
                  (if wr \<in> set (lost s) then Inl (ConnectionResetError, s') else Inr s'))"
proof -
  obtain s3 where s3: "tick s \<le> tick s3" "users s3 = users s" "sent s3 = sent s"
    "process_data e data w s =
             (case map_of (users s) (receiver r) of
                None \<Rightarrow> Inr s3
              | Some wr \<Rightarrow>
                  (if wr \<in> set (lost s)
                   then Inl (ConnectionResetError,
                          s3\<lparr>tick := Suc (tick s3),
                             sent := sent s3 @
                               [(wr, format_line e (clock e (tick s3)) (username r) (message r))]\<rparr>)
                   else Inr (s3\<lparr>tick := Suc (tick s3),
                             sent := sent s3 @
                               [(wr, format_line e (clock e (tick s3)) (username r) (message r))]\<rparr>)))"
    using one_to_one_core [OF assms] by blast
  show ?thesis
  proof (cases "map_of (users s) (receiver r)")
    case None
    then show ?thesis using s3 by simp
  next
    case (Some wr)
    let ?s' = "s3\<lparr>tick := Suc (tick s3),
                  sent := sent s3 @
                    [(wr, format_line e (clock e (tick s3)) (username r) (message r))]\<rparr>"
    have "users ?s' = users s" using s3 by simp
    moreover have "\<exists>k. tick s \<le> k \<and>
                   sent ?s' = sent s @
                     [(wr, str_dt e (clock e k) @ '' '' @ username r @ '': '' @ message r @
                           [CHR 0x0A])]"
      using s3 by (auto simp: format_line_text)
    moreover have "process_data e data w s =
                  (if wr \<in> set (lost s) then Inl (ConnectionResetError, ?s') else Inr ?s')"
      using s3(4) Some by simp
    ultimately show ?thesis using Some by (intro exI [of _ ?s']) simp
  qed
qed

theorem one_to_one_delivery_witness:
  "json_loads demo_env wire_bob_to_alice = Some (Dict (to_json bob_to_alice)) \<and>
   target bob_to_alice = ''one_to_one'' \<and>
   distinct (map fst (users demo_world)) \<and>
   map_of (users demo_world) (receiver bob_to_alice) = Some 1 \<and>
   (\<exists>s'. users s' = users demo_world \<and>
         (\<exists>k. tick demo_world \<le> k \<and>
              sent s' = sent demo_world @
                [(1, str_dt demo_env (clock demo_env k) @ '' '' @ username bob_to_alice @
                     '': '' @ message bob_to_alice @ [CHR 0x0A])]) \<and>
         process_data demo_env wire_bob_to_alice 2 demo_world = Inr s')"
proof -
  have h1: "json_loads demo_env wire_bob_to_alice = Some (Dict (to_json bob_to_alice))"
    by (rule demo_loads)
  have h2: "target bob_to_alice = ''one_to_one''" by (simp add: bob_to_alice_def)
  have h3: "distinct (map fst (users demo_world))" by (simp add: demo_world_def)
  have m: "map_of (users demo_world) (receiver bob_to_alice) = Some 1"
    by (simp add: demo_world_def bob_to_alice_def)
  have l: "1 \<notin> set (lost demo_world)" by (simp add: demo_world_def)
  show ?thesis
    using one_to_one_delivery [OF h1 h2 h3, where w = 2] h1 h2 h3 m l by simp
qed

text \<open>
  C10. A \<open>one_to_one\<close> request whose receiver is the sender's own username, when that
  username is registered, writes the formatted message to the writer registered under
  it, and to no other: the sender's writer is not skipped, as it is in the broadcast to
  all.
\<close>

theorem one_to_one_to_self:
  assumes "json_loads e data = Some (Dict (to_json r))" and "target r = ''one_to_one''"
    and "receiver r = username r"
    and "distinct (map fst (users s))"
    and "map_of (users s) (username r) = Some own"
  shows "\<exists>s' k. tick s \<le> k \<and>
           sent s' = sent s @
             [(own, str_dt e (clock e k) @ '' '' @ username r @ '': '' @ message r @
                    [CHR 0x0A])] \<and>
           process_data e data w s =
             (if own \<in> set (lost s) then Inl (ConnectionResetError, s') else Inr s')"
proof -
  obtain s3 where s3: "tick s \<le> tick s3" "sent s3 = sent s"
    "process_data e data w s =
             (case map_of (users s) (receiver r) of
                None \<Rightarrow> Inr s3
              | Some wr \<Rightarrow>
                  (if wr \<in> set (lost s)
                   then Inl (ConnectionResetError,
                          s3\<lparr>tick := Suc (tick s3),
                             sent := sent s3 @
                               [(wr, format_line e (clock e (tick s3)) (username r) (message r))]\<rparr>)
                   else Inr (s3\<lparr>tick := Suc (tick s3),
                             sent := sent s3 @
                               [(wr, format_line e (clock e (tick s3)) (username r) (message r))]\<rparr>)))"
    using one_to_one_core [OF assms(1,2,4)] by blast
  let ?s' = "s3\<lparr>tick := Suc (tick s3),
                sent := sent s3 @
                  [(own, format_line e (clock e (tick s3)) (username r) (message r))]\<rparr>"
  have "sent ?s' = sent s @
             [(own, str_dt e (clock e (tick s3)) @ '' '' @ username r @ '': '' @ message r @
                    [CHR 0x0A])]"
    using s3 by (simp add: format_line_text)
  moreover have "process_data e data w s =
             (if own \<in> set (lost s) then Inl (ConnectionResetError, ?s') else Inr ?s')"
    using s3(3) assms(3,5) by simp
  ultimately show ?thesis using s3(1) by blast
qed

theorem one_to_one_to_self_witness:
  "json_loads demo_env wire_bob_to_bob = Some (Dict (to_json bob_to_bob)) \<and>
   target bob_to_bob = ''one_to_one'' \<and>
   receiver bob_to_bob = username bob_to_bob \<and>
   distinct (map fst (users demo_world)) \<and>
   map_of (users demo_world) (username bob_to_bob) = Some 2 \<and>
   (\<exists>s' k. tick demo_world \<le> k \<and>
           sent s' = sent demo_world @
             [(2, str_dt demo_env (clock demo_env k) @ '' '' @ username bob_to_bob @
                  '': '' @ message bob_to_bob @ [CHR 0x0A])] \<and>
           process_data demo_env wire_bob_to_bob 2 demo_world = Inr s')"
proof -
  have h1: "json_loads demo_env wire_bob_to_bob = Some (Dict (to_json bob_to_bob))"
    by (rule demo_loads)
  have h2: "target bob_to_bob = ''one_to_one''" by (simp add: bob_to_bob_def)
  have h3: "receiver bob_to_bob = username bob_to_bob" by (simp add: bob_to_bob_def)
  have h4: "distinct (map fst (users demo_world))" by (simp add: demo_world_def)
  have h5: "map_of (users demo_world) (username bob_to_bob) = Some 2"
    by (simp add: demo_world_def bob_to_bob_def)
  have l: "2 \<notin> set (lost demo_world)" by (simp add: demo_world_def)
  show ?thesis
    using one_to_one_to_self [OF h1 h2 h3 h4 h5, where w = 2] h1 h2 h3 h4 h5 l by simp
qed

text \<open>
  C8. The handler of a connection, for any sequence of reads: the loop calls
  \<^verbatim>\<open>process_data\<close> on the chunk before it tests the chunk for emptiness, and decoding
  the empty bytes raises. So the handler always ends by an exception and never reaches
  \<^verbatim>\<open>writer.close()\<close>: the set of closed writers is the same as before. On an
  immediate end of stream the exception is the decoding error of the empty read.
\<close>

theorem client_connected_never_closes:
  "(\<exists>er s'. client_connected e reads w s = Inl (er, s') \<and>
             closed_writers s' = closed_writers s) \<and>
   client_connected e [] w s =
     Inl (JSONDecodeError, logger_info (''Start serving '' @ peername e w) s)"
proof
  obtain er s' where
    "serve e reads w (logger_info (''Start serving '' @ peername e w) s) = Inl (er, s')"
    "closed_writers s' = closed_writers (logger_info (''Start serving '' @ peername e w) s)"
    using serve_raises by blast
  then show "\<exists>er s'. client_connected e reads w s = Inl (er, s') \<and>
                     closed_writers s' = closed_writers s"
    by (simp add: client_connected_def logger_info_def)
next
  show "client_connected e [] w s =
          Inl (JSONDecodeError, logger_info (''Start serving '' @ peername e w) s)"
    by (simp add: client_connected_def process_data_def json_loads_def)
qed

text \<open>
  C6. For every well-formed request whose target is not \<open>hello\<close> (whatever else the
  target is, whether or not the user is known, whether or not the limit is reached),
  when the store operation is not refused by the storage engine, the table of messages
  in the state the request ends in, by return or by a lost connection, is the old table
  and exactly one more row: the request's text and sender, the receiver with the empty
  string replaced by \<open>all\<close>, and the time of the insert.
\<close>

theorem non_hello_request_is_stored:
  assumes "json_loads e data = Some (Dict (to_json r))"
    and "target r \<noteq> ''hello''"
    and "nth_fault 0 s = None"
  shows "\<exists>s'. (process_data e data w s = Inr s' \<or>
                process_data e data w s = Inl (ConnectionResetError, s')) \<and>
           messages s' = messages s @
             [(message r, username r, if receiver r = [] then ''all'' else receiver r,
               clock e (tick s))]"
proof -
  note wf = process_data_wf [OF assms(1), of w s]
  have "messages (final_state (process_data e data w s)) = messages s @
             [(message r, username r, if receiver r = [] then ''all'' else receiver r,
               clock e (tick s))]"
    using wf assms(2,3) by (simp add: create_record_in_db_ok)
  then show ?thesis using result_shape [of "process_data e data w s"] wf by auto
qed

theorem non_hello_request_is_stored_witness:
  "json_loads demo_env wire_all_bob = Some (Dict (to_json all_bob)) \<and>
   target all_bob \<noteq> ''hello'' \<and>
   nth_fault 0 demo_world = None \<and>
   (\<exists>s'. (process_data demo_env wire_all_bob 2 demo_world = Inr s' \<or>
          process_data demo_env wire_all_bob 2 demo_world = Inl (ConnectionResetError, s')) \<and>
         messages s' = messages demo_world @
           [(message all_bob, username all_bob,
             if receiver all_bob = [] then ''all'' else receiver all_bob,
             clock demo_env (tick demo_world))])"
proof -
  have h1: "json_loads demo_env wire_all_bob = Some (Dict (to_json all_bob))"
    by (rule demo_loads)
  have h2: "target all_bob \<noteq> ''hello''" by (simp add: all_bob_def)
  have h3: "nth_fault 0 demo_world = None" by (simp add: nth_fault_def demo_world_def)
  show ?thesis
    using non_hello_request_is_stored [OF h1 h2 h3, where w = 2] h1 h2 h3 by blast
qed

text \<open>
  C1. A request with target \<open>all\<close> from a user whose stored record carries a count at or
  above \<open>LIMIT_MESSAGES\<close>, the lookup of the record not failing: exactly one line is
  written, to the requester's writer, and it is the text
  \<open>You have reached the limit for sending messages to the general chat\<close> and a newline;
  no other writer is written to; the table of registrations is exactly as before, so no
  count was updated, and the same holds for the user's next request as long as nothing
  resets the counts. The request returns normally, unless the requester's own connection
  is lost and the drain after the write raises.
\<close>

theorem limit_reached_only_warning:
  assumes "json_loads e data = Some (Dict (to_json r))" and "target r = ''all''"
    and "find (\<lambda>row. fst row = username r) (registrations s) = Some (u, rd, c)"
    and "LIMIT_MESSAGES e \<le> c"
    and "nth_fault 1 s = None"
  shows "\<exists>s'. process_data e data w s =
                 (if w \<in> set (lost s) then Inl (ConnectionResetError, s') else Inr s') \<and>
           sent s' = sent s @
             [(w, ''You have reached the limit for sending messages to the general chat'' @
                  [CHR 0x0A])] \<and>
           registrations s' = registrations s \<and>
           users s' = users s"
proof -
  obtain s3 where s3: "users s3 = users s" "sent s3 = sent s"
    "registrations s3 = registrations s" "lost s3 = lost s"
    "process_data e data w s =
             (if LIMIT_MESSAGES e \<le> c then send_limit_warning w s3
              else (case send_to_all e w (username r) (message r) s3 of
                      Inl x \<Rightarrow> Inl x
                    | Inr s4 \<Rightarrow> Inr (append_count_message (username r) c s4)))"
    using all_request_known_user [OF assms(1,2,3,5)] by blast
  let ?s' = "s3\<lparr>sent := sent s3 @ [(w, limit_warning_line)]\<rparr>"
  have "process_data e data w s =
          (if w \<in> set (lost s) then Inl (ConnectionResetError, ?s') else Inr ?s')"
    using s3 assms(4) by (simp add: send_limit_warning_eq)
  moreover have "sent ?s' = sent s @
             [(w, ''You have reached the limit for sending messages to the general chat'' @
                  [CHR 0x0A])]"
    using s3 by (simp add: limit_warning_line_def newline_def)
  ultimately show ?thesis using s3 by (intro exI [of _ ?s']) simp
qed

theorem limit_reached_only_warning_witness:
  "json_loads demo_env wire_all_alice = Some (Dict (to_json all_alice)) \<and>
   target all_alice = ''all'' \<and>
   find (\<lambda>row. fst row = username all_alice) (registrations demo_world) =
     Some (''alice'', 10, 2) \<and>
   LIMIT_MESSAGES demo_env \<le> 2 \<and>
   nth_fault 1 demo_world = None \<and>
   (\<exists>s'. process_data demo_env wire_all_alice 1 demo_world = Inr s' \<and>
         sent s' = sent demo_world @
           [(1, ''You have reached the limit for sending messages to the general chat'' @
                [CHR 0x0A])] \<and>
         registrations s' = registrations demo_world \<and>
         users s' = users demo_world)"
proof -
  have h1: "json_loads demo_env wire_all_alice = Some (Dict (to_json all_alice))"
    by (rule demo_loads)
  have h2: "target all_alice = ''all''" by (simp add: all_alice_def)
  have h3: "find (\<lambda>row. fst row = username all_alice) (registrations demo_world) =
              Some (''alice'', 10, 2)"
    by (simp add: all_alice_def demo_world_def)
  have h4: "LIMIT_MESSAGES demo_env \<le> 2" by (simp add: demo_env_def)
  have h5: "nth_fault 1 demo_world = None" by (simp add: nth_fault_def demo_world_def)
  have l: "1 \<notin> set (lost demo_world)" by (simp add: demo_world_def)
  show ?thesis
    using limit_reached_only_warning [OF h1 h2 h3 h4 h5, where w = 1] h1 h2 h3 h4 h5 l by simp
qed

text \<open>
  C2, as the code has it. A request with target \<open>all\<close> from a user whose stored record
  carries a count below \<open>LIMIT_MESSAGES\<close>, the lookup and the update of the record not
  failing, and no entry of the registry other than the requester's having lost its
  connection: the writes are one line for each entry of the registry whose writer is not
  the requester's, in the order of the registry, each made of the clock reading of its
  own write, a space, the sender, a colon and a space, the text and a newline; the
  requester's writer gets nothing; the registry is unchanged; and afterwards the user's
  record carries the count that was read plus one.
\<close>

theorem below_limit_broadcast:
  assumes "json_loads e data = Some (Dict (to_json r))" and "target r = ''all''"
    and "find (\<lambda>row. fst row = username r) (registrations s) = Some (u, rd, c)"
    and "c < LIMIT_MESSAGES e"
    and "nth_fault 1 s = None" and "nth_fault 2 s = None"
    and "\<forall>w' \<in> set (map snd (users s)). w' \<noteq> w \<longrightarrow> w' \<notin> set (lost s)"
  shows "\<exists>s' t0. process_data e data w s = Inr s' \<and> tick s \<le> t0 \<and>
           sent s' = sent s @
             map (\<lambda>(k, w'). (w', str_dt e (clock e k) @ '' '' @ username r @ '': '' @
                                   message r @ [CHR 0x0A]))
               (zip [t0..<t0 + length (filter (\<lambda>w'. w' \<noteq> w) (map snd (users s)))]
                    (filter (\<lambda>w'. w' \<noteq> w) (map snd (users s)))) \<and>
           find (\<lambda>row. fst row = username r) (registrations s') = Some (u, rd, c + 1) \<and>
           users s' = users s"
proof -
  obtain s3 where s3: "users s3 = users s" "sent s3 = sent s"
    "registrations s3 = registrations s" "lost s3 = lost s" "tick s \<le> tick s3"
    "faults s3 = tl (tl (faults s))"
    "process_data e data w s =
             (if LIMIT_MESSAGES e \<le> c then send_limit_warning w s3
              else (case send_to_all e w (username r) (message r) s3 of
                      Inl x \<Rightarrow> Inl x
                    | Inr s4 \<Rightarrow> Inr (append_count_message (username r) c s4)))"
    using all_request_known_user [OF assms(1,2,3,5)] by blast
  let ?rs = "filter (\<lambda>w'. w' \<noteq> w) (map snd (users s))"
  let ?lines = "map (\<lambda>(k, w'). (w', format_line e (clock e k) (username r) (message r)))
                   (zip [tick s3..<tick s3 + length ?rs] ?rs)"
  define s4 where "s4 = s3\<lparr>sent := sent s @ ?lines, tick := tick s3 + length ?rs\<rparr>"
  have alive: "\<forall>w' \<in> set (map snd (users s3)). w' \<noteq> w \<longrightarrow> w' \<notin> set (lost s3)"
    using assms(7) s3(1,4) by simp
  have s4: "send_to_all e w (username r) (message r) s3 = Inr s4"
    using send_to_all_loop_alive [OF alive, of e "username r" "message r"] s3(1,2)
    by (simp add: send_to_all_def s4_def)
  have f4: "sent s4 = sent s @ ?lines" "users s4 = users s"
    "registrations s4 = registrations s" "faults s4 = drop 2 (faults s)"
    using s3 by (simp_all add: s4_def tl2_drop)
  have n: "nth_fault 0 s4 = None"
    using assms(6) nth_fault_drop [OF f4(4), of 0] by simp
  have u: "u = username r" using find_Some_fst [OF assms(3)] by simp
  have fmt: "?lines = map (\<lambda>(k, w'). (w', str_dt e (clock e k) @ '' '' @ username r @ '': '' @
                                   message r @ [CHR 0x0A]))
               (zip [tick s3..<tick s3 + length ?rs] ?rs)"
    by (simp add: format_line_text)
  have p: "process_data e data w s = Inr (append_count_message (username r) c s4)"
    using s3(7) assms(4) s4 by simp
  have a: "sent (append_count_message (username r) c s4) = sent s @ ?lines"
    by (simp add: append_count_message_ok [OF n] f4)
  have b: "users (append_count_message (username r) c s4) = users s"
    by (simp add: append_count_message_ok [OF n] f4)
  have c: "find (\<lambda>row. fst row = username r)
             (registrations (append_count_message (username r) c s4)) = Some (u, rd, c + 1)"
    using assms(3) u
    by (simp add: append_count_message_ok [OF n] find_after_update f4)
  show ?thesis
    using p a b c s3(5) unfolding fmt by blast
qed

theorem below_limit_broadcast_witness:
  "json_loads demo_env wire_all_bob = Some (Dict (to_json all_bob)) \<and>
   target all_bob = ''all'' \<and>
   find (\<lambda>row. fst row = username all_bob) (registrations demo_world) =
     Some (''bob'', 30, 0) \<and>
   0 < LIMIT_MESSAGES demo_env \<and>
   nth_fault 1 demo_world = None \<and> nth_fault 2 demo_world = None \<and>
   lost demo_world = [] \<and>
   (\<exists>s' t0. process_data demo_env wire_all_bob 2 demo_world = Inr s' \<and>
         tick demo_world \<le> t0 \<and>
         sent s' = sent demo_world @
           map (\<lambda>(k, w'). (w', str_dt demo_env (clock demo_env k) @ '' '' @
                                 username all_bob @ '': '' @ message all_bob @ [CHR 0x0A]))
             (zip [t0..<t0 + length (filter (\<lambda>w'. w' \<noteq> 2) (map snd (users demo_world)))]
                  (filter (\<lambda>w'. w' \<noteq> 2) (map snd (users demo_world)))) \<and>
         find (\<lambda>row. fst row = username all_bob) (registrations s') =
           Some (''bob'', 30, 0 + 1) \<and>
         users s' = users demo_world)"
proof -
  have h1: "json_loads demo_env wire_all_bob = Some (Dict (to_json all_bob))"
    by (rule demo_loads)
  have h2: "target all_bob = ''all''" by (simp add: all_bob_def)
  have h3: "find (\<lambda>row. fst row = username all_bob) (registrations demo_world) =
              Some (''bob'', 30, 0)"
    by (simp add: all_bob_def demo_world_def)
  have h4: "0 < LIMIT_MESSAGES demo_env" by (simp add: demo_env_def)
  have h5: "nth_fault 1 demo_world = None" by (simp add: nth_fault_def demo_world_def)
  have h6: "nth_fault 2 demo_world = None" by (simp add: nth_fault_def demo_world_def)
  have l: "lost demo_world = []" by (simp add: demo_world_def)
  have h7: "\<forall>w' \<in> set (map snd (users demo_world)). w' \<noteq> 2 \<longrightarrow> w' \<notin> set (lost demo_world)"
    by (simp add: l)
  show ?thesis
    using below_limit_broadcast [OF h1 h2 h3 h4 h5 h6 h7] h1 h2 h3 h4 h5 h6 l by blast
qed

text \<open>
  C2, as the specification states it, fails when an entry of the registry is stale.
  Alice's connection is lost and her entry is still in the registry, before carol's.
  Bob, whose count is 0 with a limit of 2, sends to all: the line is written to alice's
  writer, the drain raises \<^verbatim>\<open>ConnectionResetError\<close>, carol's writer gets nothing and
  bob's count is still 0.
\<close>

theorem broadcast_stale_entry_counterexample:
  "users stale_world = [(''alice'', 1), (''bob'', 2), (''carol'', 3)] \<and>
   registrations stale_world = [(''alice'', 10, 2), (''bob'', 30, 0), (''carol'', 50, 0)] \<and>
   LIMIT_MESSAGES demo_env = 2 \<and> faults stale_world = [] \<and>
   json_loads demo_env wire_all_bob = Some (Dict (to_json all_bob)) \<and>
   process_data demo_env wire_all_bob 2 stale_world =
     Inl (ConnectionResetError,
          stale_world\<lparr>messages := messages stale_world @ [(''hi'', ''bob'', ''all'', 1000)],
                      tick := 2,
                      sent := [(1, ''later bob: hi'' @ [CHR 0x0A])]\<rparr>)"
proof -
  have p: "process_data demo_env wire_all_bob 2 stale_world =
     Inl (ConnectionResetError,
          stale_world\<lparr>messages := messages stale_world @ [(''hi'', ''bob'', ''all'', 1000)],
                      tick := 2,
                      sent := [(1, ''later bob: hi'' @ [CHR 0x0A])]\<rparr>)"
    unfolding process_data_request [OF demo_loads(3)]
    by (simp add: run_defs request_defs stale_world_def demo_world_def demo_env_def)
  show ?thesis
    using p by (simp add: demo_loads) (simp add: stale_world_def demo_world_def demo_env_def)
qed

text \<open>
  C4, as the code has it. A well-formed request with target \<open>hello\<close>, for any behaviour
  of the storage engine, the requester's connection and those of the other entries of
  the registry not being lost: with \<open>rd\<close> the registration date that the user resolution
  yields and \<open>ms\<close> the backlog that the fetch for the user and \<open>rd\<close> returns, the request
  returns normally, and what it wrote is, in this order, the backlog to the requester's
  writer, for each entry its timestamp, a space, its sender, a colon and a space, its
  text and a newline, and then the line \<open>New guest in the chat! - \<close> with the username
  and a newline to the writer of every entry of the registry under another username
  whose writer is not the requester's. Afterwards the registry maps the username to the
  requester's writer and every other username as before; the keys keep their order, a
  new key coming last. An entry that the user had under another writer is overwritten
  before the notifications, and so is not notified.
\<close>

theorem hello_steps_in_order:
  assumes "json_loads e data = Some (Dict (to_json r))" and "target r = ''hello''"
    and "distinct (map fst (users s))"
    and "w \<notin> set (lost s)"
    and "\<forall>w' \<in> set (map snd (users s)). w' \<noteq> w \<longrightarrow> w' \<notin> set (lost s)"
  shows "\<exists>rd c s3 ms s4 s'.
           resolve_user e (username r) s = (rd, c, s3) \<and>
           get_available_messages_db e (username r) rd s3 = (ms, s4) \<and>
           process_data e data w s = Inr s' \<and>
           sent s' = sent s @
             map (\<lambda>(text, sender, t).
                    (w, str_dt e t @ '' '' @ sender @ '': '' @ text @ [CHR 0x0A])) ms @
             map (\<lambda>w'. (w', ''New guest in the chat! - '' @ username r @ [CHR 0x0A]))
               (filter (\<lambda>w'. w' \<noteq> w)
                  (map snd (filter (\<lambda>p. fst p \<noteq> username r) (users s)))) \<and>
           map_of (users s') = (map_of (users s))(username r \<mapsto> w) \<and>
           map fst (users s') =
             (if username r \<in> set (map fst (users s)) then map fst (users s)
              else map fst (users s) @ [username r])"
proof -
  obtain rd c s3 where res: "resolve_user e (username r) s = (rd, c, s3)"
    by (cases "resolve_user e (username r) s")
  obtain ms s4 where g: "get_available_messages_db e (username r) rd s3 = (ms, s4)"
    by (cases "get_available_messages_db e (username r) rd s3")
  define s' where "s' = s4\<lparr>sent := sent s @ map (\<lambda>m. (w, backlog_line e m)) ms @
                         map (\<lambda>w'. (w', hello_line (username r)))
                           (filter (\<lambda>w'. w' \<noteq> w)
                              (map snd (dict_set (username r) w (users s)))),
                   users := dict_set (username r) w (users s)\<rparr>"
  have p: "process_data e data w s = Inr s'"
    unfolding s'_def by (rule hello_core [OF assms(1,2) res g assms(4,5)])
  have a: "sent s' = sent s @
             map (\<lambda>(text, sender, t).
                    (w, str_dt e t @ '' '' @ sender @ '': '' @ text @ [CHR 0x0A])) ms @
             map (\<lambda>w'. (w', ''New guest in the chat! - '' @ username r @ [CHR 0x0A]))
               (filter (\<lambda>w'. w' \<noteq> w)
                  (map snd (filter (\<lambda>p. fst p \<noteq> username r) (users s))))"
    by (simp add: s'_def recipients_dict_set [OF assms(3)] hello_line_text backlog_line_text
          case_prod_beta)
  have b: "map_of (users s') = (map_of (users s))(username r \<mapsto> w)"
    by (simp add: s'_def map_of_dict_set)
  have c: "map fst (users s') =
             (if username r \<in> set (map fst (users s)) then map fst (users s)
              else map fst (users s) @ [username r])"
    by (simp add: s'_def keys_dict_set)
  show ?thesis using res g p a b c by blast
qed

theorem hello_steps_in_order_witness:
  "json_loads demo_env wire_hello_carol = Some (Dict (to_json hello_carol)) \<and>
   target hello_carol = ''hello'' \<and>
   distinct (map fst (users demo_world)) \<and>
   lost demo_world = [] \<and>
   username hello_carol \<notin> set (map fst (users demo_world)) \<and>
   (\<exists>rd c s3 ms s4 s'.
      resolve_user demo_env (username hello_carol) demo_world = (rd, c, s3) \<and>
      get_available_messages_db demo_env (username hello_carol) rd s3 = (ms, s4) \<and>
      process_data demo_env wire_hello_carol 3 demo_world = Inr s' \<and>
      sent s' = sent demo_world @
        map (\<lambda>(text, sender, t).
               (3, str_dt demo_env t @ '' '' @ sender @ '': '' @ text @ [CHR 0x0A])) ms @
        map (\<lambda>w'. (w', ''New guest in the chat! - '' @ username hello_carol @ [CHR 0x0A]))
          (filter (\<lambda>w'. w' \<noteq> 3)
             (map snd (filter (\<lambda>p. fst p \<noteq> username hello_carol) (users demo_world)))) \<and>
      map_of (users s') = (map_of (users demo_world))(username hello_carol \<mapsto> 3) \<and>
      map fst (users s') = map fst (users demo_world) @ [username hello_carol])"
proof -
  have h1: "json_loads demo_env wire_hello_carol = Some (Dict (to_json hello_carol))"
    by (rule demo_loads)
  have h2: "target hello_carol = ''hello''" by (simp add: hello_carol_def)
  have h3: "distinct (map fst (users demo_world))" by (simp add: demo_world_def)
  have l: "lost demo_world = []" by (simp add: demo_world_def)
  have h4: "3 \<notin> set (lost demo_world)" by (simp add: l)
  have h5: "\<forall>w' \<in> set (map snd (users demo_world)). w' \<noteq> 3 \<longrightarrow> w' \<notin> set (lost demo_world)"
    by (simp add: l)
  have n: "username hello_carol \<notin> set (map fst (users demo_world))"
    by (simp add: hello_carol_def demo_world_def)
  show ?thesis
    using hello_steps_in_order [OF h1 h2 h3 h4 h5] h1 h2 h3 l n by simp
qed

text \<open>
  C4, as the specification states it, fails when an entry of the registry is stale.
  Bob says hello on a new writer, 4, while alice's connection is lost and her entry is
  still in the registry: bob gets his backlog, the registry is updated, the join line is
  written to alice's writer, the drain raises \<^verbatim>\<open>ConnectionResetError\<close>, and carol, who
  is registered and connected, is not notified.
\<close>

theorem hello_stale_entry_counterexample:
  "users stale_world = [(''alice'', 1), (''bob'', 2), (''carol'', 3)] \<and>
   lost stale_world = [1] \<and>
   json_loads demo_env wire_hello_bob = Some (Dict (to_json hello_bob)) \<and>
   process_data demo_env wire_hello_bob 4 stale_world =
     Inl (ConnectionResetError,
          stale_world\<lparr>users := [(''alice'', 1), (''bob'', 4), (''carol'', 3)],
                      sent := [(4, ''earlier alice: one'' @ [CHR 0x0A]),
                               (4, ''earlier alice: three'' @ [CHR 0x0A]),
                               (1, ''New guest in the chat! - bob'' @ [CHR 0x0A])]\<rparr>)"
proof -
  have p: "process_data demo_env wire_hello_bob 4 stale_world =
     Inl (ConnectionResetError,
          stale_world\<lparr>users := [(''alice'', 1), (''bob'', 4), (''carol'', 3)],
                      sent := [(4, ''earlier alice: one'' @ [CHR 0x0A]),
                               (4, ''earlier alice: three'' @ [CHR 0x0A]),
                               (1, ''New guest in the chat! - bob'' @ [CHR 0x0A])]\<rparr>)"
    unfolding process_data_request [OF demo_loads(2)]
    by (simp add: run_defs request_defs stale_world_def demo_world_def demo_env_def)
  show ?thesis
    using p by (simp add: demo_loads) (simp add: stale_world_def demo_world_def)
qed

text \<open>
  C7. The first \<open>hello\<close> of a user who has no record, the lookup and the insert not
  failing: the table of registrations grows by exactly one row, the user's, with the
  clock reading of the insert as registration date and a zero count (the column's
  default), and it is the only row of that user. A second \<open>hello\<close> of the same user on
  the resulting state, its two storage operations not failing, leaves the table as it
  is, and it reads no clock, logs nothing and takes exactly two storage operations, the
  lookup and the fetch of the backlog: the record was found and \<^verbatim>\<open>reg_user\<close>, which
  connects to the storage and reads the clock, was not called. Both requests may end by
  return or by a lost connection.
\<close>

theorem first_hello_creates_one_record:
  assumes "json_loads e data = Some (Dict (to_json r))" and "target r = ''hello''"
    and "username r \<notin> set (map fst (registrations s))"
    and "nth_fault 0 s = None" and "nth_fault 1 s = None"
    and "json_loads e data2 = Some (Dict (to_json r2))" and "target r2 = ''hello''"
    and "username r2 = username r"
    and "nth_fault 3 s = None" and "nth_fault 4 s = None"
  shows "\<exists>s' s''.
           (process_data e data w s = Inr s' \<or>
            process_data e data w s = Inl (ConnectionResetError, s')) \<and>
           registrations s' = registrations s @ [(username r, clock e (tick s), 0)] \<and>
           filter (\<lambda>row. fst row = username r) (registrations s') =
             [(username r, clock e (tick s), 0)] \<and>
           (process_data e data2 w2 s' = Inr s'' \<or>
            process_data e data2 w2 s' = Inl (ConnectionResetError, s'')) \<and>
           registrations s'' = registrations s' \<and>
           tick s'' = tick s' \<and> logs s'' = logs s' \<and>
           faults s'' = tl (tl (faults s'))"
proof -
  let ?U = "username r"
  let ?s3 = "s\<lparr>faults := tl (tl (faults s)), tick := Suc (Suc (tick s)),
               registrations := registrations s @ [(?U, clock e (tick s), 0)]\<rparr>"
  have res: "resolve_user e ?U s = (clock e (Suc (tick s)), 0, ?s3)"
    by (rule resolve_user_new [OF assms(4,5,3)])
  define s' where "s' = final_state (process_data e data w s)"
  note h1 = hello_known_user [OF assms(1,2) res, of w]
  have p1: "process_data e data w s = Inr s' \<or>
            process_data e data w s = Inl (ConnectionResetError, s')"
    using result_shape [of "process_data e data w s"] h1 by (simp add: s'_def)
  have r1: "registrations s' = registrations s @ [(?U, clock e (tick s), 0)]"
    using h1 by (simp add: s'_def)
  have f1: "faults s' = drop 3 (faults s)"
    using h1 by (simp add: s'_def tl3_drop)
  have one: "filter (\<lambda>row. fst row = ?U) (registrations s') = [(?U, clock e (tick s), 0)]"
    using assms(3) by (force simp: r1 filter_empty_conv)
  have n0: "nth_fault 0 s' = None"
    using assms(9) nth_fault_drop [OF f1, of 0] by simp
  have n1: "nth_fault 1 s' = None"
    using assms(10) nth_fault_drop [OF f1, of 1] by simp
  have fd: "find (\<lambda>row. fst row = username r2) (registrations s') =
              Some (?U, clock e (tick s), 0)"
    using assms(3,8) by (simp add: r1 find_appended_new)
  let ?t3 = "s'\<lparr>faults := tl (faults s')\<rparr>"
  have res2: "resolve_user e (username r2) s' = (clock e (tick s), 0, ?t3)"
    by (rule resolve_user_found [OF n0 fd])
  have n3: "nth_fault 0 ?t3 = None"
    using n1 nth_fault_tl [of ?t3 s' 0] by simp
  define s'' where "s'' = final_state (process_data e data2 w2 s')"
  note h2 = hello_known_user [OF assms(6,7) res2, of w2]
  have p2: "process_data e data2 w2 s' = Inr s'' \<or>
            process_data e data2 w2 s' = Inl (ConnectionResetError, s'')"
    using result_shape [of "process_data e data2 w2 s'"] h2 by (simp add: s''_def)
  have q: "registrations s'' = registrations s' \<and> tick s'' = tick s' \<and>
           logs s'' = logs s' \<and> faults s'' = tl (tl (faults s'))"
    using h2 n3 by (simp add: s''_def)
  show ?thesis using p1 r1 one p2 q by blast
qed

theorem first_hello_creates_one_record_witness:
  "json_loads demo_env wire_hello_carol = Some (Dict (to_json hello_carol)) \<and>
   target hello_carol = ''hello'' \<and>
   username hello_carol \<notin> set (map fst (registrations demo_world)) \<and>
   nth_fault 0 demo_world = None \<and> nth_fault 1 demo_world = None \<and>
   nth_fault 3 demo_world = None \<and> nth_fault 4 demo_world = None \<and>
   (\<exists>s' s''.
       (process_data demo_env wire_hello_carol 3 demo_world = Inr s' \<or>
        process_data demo_env wire_hello_carol 3 demo_world = Inl (ConnectionResetError, s')) \<and>
       registrations s' = registrations demo_world @
         [(username hello_carol, clock demo_env (tick demo_world), 0)] \<and>
       filter (\<lambda>row. fst row = username hello_carol) (registrations s') =
         [(username hello_carol, clock demo_env (tick demo_world), 0)] \<and>
       (process_data demo_env wire_hello_carol 4 s' = Inr s'' \<or>
        process_data demo_env wire_hello_carol 4 s' = Inl (ConnectionResetError, s'')) \<and>
       registrations s'' = registrations s' \<and>
       tick s'' = tick s' \<and> logs s'' = logs s' \<and>
       faults s'' = tl (tl (faults s')))"
proof -
  have h1: "json_loads demo_env wire_hello_carol = Some (Dict (to_json hello_carol))"
    by (rule demo_loads)
  have h2: "target hello_carol = ''hello''" by (simp add: hello_carol_def)
  have h3: "username hello_carol \<notin> set (map fst (registrations demo_world))"
    by (simp add: hello_carol_def demo_world_def)
  have h4: "nth_fault 0 demo_world = None" by (simp add: nth_fault_def demo_world_def)
  have h5: "nth_fault 1 demo_world = None" by (simp add: nth_fault_def demo_world_def)
  have h6: "nth_fault 3 demo_world = None" by (simp add: nth_fault_def demo_world_def)
  have h7: "nth_fault 4 demo_world = None" by (simp add: nth_fault_def demo_world_def)
  have h8: "username hello_carol = username hello_carol" by simp
  show ?thesis
    using first_hello_creates_one_record
            [OF h1 h2 h3 h4 h5 h1 h2 h8 h6 h7, where w = 3 and ?w2.0 = 4]
      h1 h2 h3 h4 h5 h6 h7
    by blast
qed






end
